theory Spec2Isabelle
  imports Complex_Main
begin


section \<open>Errors, results and tensors\<close>

text \<open>
  The Python exceptions the modelled code can raise. \<open>NotModelled\<close> is not an
  exception: it marks an input on which the model gives no answer (a leading axis of size
  one that torch would broadcast against a longer one).
\<close>

datatype error =
  AssertionError | AttributeError | IndexError | ValueError | RuntimeError | EinopsError
  | ZeroDivisionError | NotModelled

definition bindE :: "error + 'a \<Rightarrow> ('a \<Rightarrow> error + 'b) \<Rightarrow> error + 'b" where
  "bindE r f = (case r of Inl e \<Rightarrow> Inl e | Inr v \<Rightarrow> f v)"

fun mapE :: "('a \<Rightarrow> error + 'b) \<Rightarrow> 'a list \<Rightarrow> error + 'b list" where
  "mapE f [] = Inr []"
| "mapE f (x # xs) = bindE (f x) (\<lambda>y. bindE (mapE f xs) (\<lambda>ys. Inr (y # ys)))"

text \<open>
  A tensor of floats is a nested list of reals: a vector is the last axis, a matrix is
  \<open>[n, d]\<close>, a \<open>tensor3\<close> is \<open>[b, n, d]\<close>. Arithmetic is exact real arithmetic; rounding
  and overflow are not modelled. A scalar that can be NaN or infinite is a
  \<open>real option\<close>, \<open>None\<close> standing for the non-finite value.
\<close>

type_synonym vec = "real list"
type_synonym mat = "real list list"
type_synonym tensor3 = "real list list list"

definition has_shape2 :: "'a list list \<Rightarrow> nat \<Rightarrow> nat \<Rightarrow> bool" where
  "has_shape2 x n d \<longleftrightarrow> length x = n \<and> (\<forall>v \<in> set x. length v = d)"

definition has_shape3 :: "'a list list list \<Rightarrow> nat \<Rightarrow> nat \<Rightarrow> nat \<Rightarrow> bool" where
  "has_shape3 x b n d \<longleftrightarrow> length x = b \<and> (\<forall>s \<in> set x. has_shape2 s n d)"

text \<open>
  \<open>x.shape[-1]\<close> and \<open>x.shape[-2]\<close> of a \<open>[b, n, d]\<close> tensor. A nested list with an empty
  batch or sequence axis does not record the sizes of the axes below it; they are read
  as 0 there.
\<close>

definition last_dim :: "'a list list list \<Rightarrow> nat" where
  "last_dim x = (case x of [] \<Rightarrow> 0 | s # _ \<Rightarrow> (case s of [] \<Rightarrow> 0 | v # _ \<Rightarrow> length v))"

definition seq_len :: "'a list list \<Rightarrow> nat" where
  "seq_len x = (case x of [] \<Rightarrow> 0 | s # _ \<Rightarrow> length s)"

text \<open>The same reading for the second axis of a matrix.\<close>

definition width :: "'a list list \<Rightarrow> nat" where
  "width x = (case x of [] \<Rightarrow> 0 | r # _ \<Rightarrow> length r)"

text \<open>
  An elementwise binary operation on the last axis, with torch's broadcasting: equal
  sizes, or one side of size one; any other pair of sizes raises RuntimeError.
\<close>

definition broadcast2 :: "('a \<Rightarrow> 'a \<Rightarrow> 'b) \<Rightarrow> 'a list \<Rightarrow> 'a list \<Rightarrow> error + 'b list" where
  "broadcast2 f u v =
     (if length u = length v then Inr (map2 f u v)
      else if length u = 1 then Inr (map (f (hd u)) v)
      else if length v = 1 then Inr (map (\<lambda>a. f a (hd v)) u)
      else Inl RuntimeError)"

text \<open>
  The same on a leading axis, for operands whose sizes on that axis agree. Where they
  differ torch broadcasts or raises; the model gives \<open>NotModelled\<close>.
\<close>

definition zipE :: "('a \<Rightarrow> 'b \<Rightarrow> error + 'c) \<Rightarrow> 'a list \<Rightarrow> 'b list \<Rightarrow> error + 'c list" where
  "zipE f xs ys =
     (if length xs = length ys then mapE (\<lambda>(x, y). f x y) (zip xs ys) else Inl NotModelled)"

definition add3 :: "tensor3 \<Rightarrow> tensor3 \<Rightarrow> error + tensor3" where
  "add3 = zipE (zipE (broadcast2 (+)))"

definition sub3 :: "tensor3 \<Rightarrow> tensor3 \<Rightarrow> error + tensor3" where
  "sub3 = zipE (zipE (broadcast2 (-)))"

text \<open>
  \<open>torch.cat((a, b), dim = -1)\<close>: every axis but the last must agree, else RuntimeError.
\<close>

definition cat_last :: "'a list list list \<Rightarrow> 'a list list list \<Rightarrow> error + 'a list list list" where
  "cat_last a b =
     (if length a = length b \<and> (\<forall>(s, t) \<in> set (zip a b). length s = length t)
      then Inr (map2 (map2 (@)) a b) else Inl RuntimeError)"

text \<open>
  \<open>Tensor.chunk(c, dim = -1)\<close> on one vector: pieces of size \<open>ceil(n / c)\<close>, the last one
  shorter, so fewer than \<open>c\<close> pieces may come back; an empty axis gives \<open>c\<close> empty pieces.
\<close>

definition chunk :: "nat \<Rightarrow> 'a list \<Rightarrow> 'a list list" where
  "chunk c xs =
     (let n = length xs; s = (n + c - 1) div c
      in if s = 0 then replicate c []
         else map (\<lambda>i. take s (drop (i * s) xs)) [0 ..< (n + s - 1) div s])"

text \<open>\<open>dot\<close> is the inner product, \<open>mean_opt\<close> the mean: NaN on an empty axis.\<close>

definition dot :: "vec \<Rightarrow> vec \<Rightarrow> real" where
  "dot u v = sum_list (map2 (*) u v)"

definition mean_opt :: "real list \<Rightarrow> real option" where
  "mean_opt xs = (if xs = [] then None else Some (sum_list xs / real (length xs)))"

section \<open>Helper functions\<close>

definition exists :: "'a option \<Rightarrow> bool" where
  "exists val \<longleftrightarrow> val \<noteq> None"

definition default_py :: "'a option \<Rightarrow> 'a \<Rightarrow> 'a" where
  "default_py val d = (case val of Some v \<Rightarrow> v | None \<Rightarrow> d)"

text \<open>Python's \<open>%\<close> on integers is floored, as \<open>mod\<close> on \<open>int\<close> is; \<open>den\<close> is 2 at every call.\<close>

definition divisible_by :: "int \<Rightarrow> int \<Rightarrow> bool" where
  "divisible_by num den \<longleftrightarrow> num mod den = 0"

definition is_odd :: "int \<Rightarrow> bool" where
  "is_odd n \<longleftrightarrow> \<not> divisible_by n 2"

text \<open>
  \<open>prob_mask_like(shape, prob, device)\<close> for the one-axis shape \<open>(n,)\<close> it is called with.
  The uniform samples \<open>uniform_(0, 1)\<close> draws are the explicit argument \<open>us\<close>; the first
  two branches draw none.
\<close>

definition prob_mask_like :: "nat \<Rightarrow> real \<Rightarrow> (nat \<Rightarrow> real) \<Rightarrow> bool list" where
  "prob_mask_like n prob us =
     (if prob = 1 then replicate n True
      else if prob = 0 then replicate n False
      else map (\<lambda>i. us i < prob) [0 ..< n])"

section \<open>Library layers\<close>

text \<open>
  \<open>nn.Linear\<close>: \<open>y = W x + b\<close> on the last axis; an input of another width raises
  RuntimeError. \<open>lin_bias = None\<close> is \<open>bias = False\<close>.
\<close>

record linear =
  in_features :: nat
  lin_weight :: "real list list"
  lin_bias :: "real list option"

definition Linear_forward :: "linear \<Rightarrow> vec \<Rightarrow> error + vec" where
  "Linear_forward l v =
     (if length v \<noteq> in_features l then Inl RuntimeError
      else Inr (case lin_bias l of
                  None \<Rightarrow> map (\<lambda>w. dot w v) (lin_weight l)
                | Some b \<Rightarrow> map2 (\<lambda>w c. dot w v + c) (lin_weight l) b))"

text \<open>
  The constructor \<open>nn.Linear(i, o, bias)\<close>, its initial values given by \<open>w\<close> and \<open>b\<close>.
\<close>

definition Linear_init ::
  "nat \<Rightarrow> nat \<Rightarrow> (nat \<Rightarrow> nat \<Rightarrow> real) \<Rightarrow> (nat \<Rightarrow> real) option \<Rightarrow> linear" where
  "Linear_init i o' w b =
     \<lparr>in_features = i,
      lin_weight = map (\<lambda>r. map (w r) [0 ..< i]) [0 ..< o'],
      lin_bias = map_option (\<lambda>c. map c [0 ..< o']) b\<rparr>"

text \<open>\<open>nn.Embedding\<close>: a table lookup; an index outside the table raises IndexError.\<close>

definition Embedding_forward :: "real list list \<Rightarrow> int \<Rightarrow> error + vec" where
  "Embedding_forward tbl i =
     (if 0 \<le> i \<and> nat i < length tbl then Inr (tbl ! nat i) else Inl IndexError)"

text \<open>
  \<open>nn.GELU()\<close> is \<open>x * (1 + erf (x / sqrt 2)) / 2\<close>, with the error function given by its
  Maclaurin series.
\<close>

definition erf :: "real \<Rightarrow> real" where
  "erf x = 2 / sqrt pi * (\<Sum>n. (- 1) ^ n * x ^ (2 * n + 1) / (fact n * real (2 * n + 1)))"

definition gelu :: "real \<Rightarrow> real" where
  "gelu x = x * (1 + erf (x / sqrt 2)) / 2"

section \<open>Sinusoidal positions\<close>

text \<open>
  \<open>LearnedSinusoidalPosEmb\<close>. The constructor takes the initial weights as the index
  function \<open>w\<close> (\<open>torch.randn\<close> in the source).
\<close>

definition LearnedSinusoidalPosEmb_init :: "int \<Rightarrow> (nat \<Rightarrow> real) \<Rightarrow> error + real list" where
  "LearnedSinusoidalPosEmb_init dim' w =
     (if \<not> divisible_by dim' 2 then Inl AssertionError
      else let half_dim = dim' div 2
           in if half_dim < 0 then Inl RuntimeError
              else Inr (map w [0 ..< nat half_dim]))"

definition LearnedSinusoidalPosEmb_forward :: "real list \<Rightarrow> real list \<Rightarrow> mat" where
  "LearnedSinusoidalPosEmb_forward weights x =
     map (\<lambda>t. let freqs = map (\<lambda>w. t * w * 2 * pi) weights
              in map sin freqs @ map cos freqs) x"

section \<open>Rotary positional embeddings\<close>

text \<open>
  \<open>RotaryEmbedding.__init__\<close> computes the buffer \<open>inv_freq\<close> over \<open>arange(0, dim, 2)\<close>,
  and \<open>forward\<close> the table of angles, each row the frequencies twice.
\<close>

definition RotaryEmbedding_init :: "nat \<Rightarrow> real \<Rightarrow> real list" where
  "RotaryEmbedding_init dim' theta =
     map (\<lambda>i. 1 / (theta powr (real (2 * i) / real dim'))) [0 ..< (dim' + 1) div 2]"

definition RotaryEmbedding_forward :: "real list \<Rightarrow> nat \<Rightarrow> mat" where
  "RotaryEmbedding_forward inv_freq seq_len' =
     map (\<lambda>t. let freqs = map (\<lambda>f. real t * f) inv_freq in freqs @ freqs) [0 ..< seq_len']"

text \<open>
  \<open>rotate_half\<close> on one vector of the last axis: unpacking \<open>x.chunk(2)\<close> into two names
  raises ValueError when one piece comes back.
\<close>

definition rotate_half :: "vec \<Rightarrow> error + vec" where
  "rotate_half x =
     (case chunk 2 x of [x1, x2] \<Rightarrow> Inr (map uminus x2 @ x1) | _ \<Rightarrow> Inl ValueError)"

text \<open>
  \<open>apply_rotary_pos_emb(pos, t)\<close> on one vector of angles and one vector of the last axis,
  in Python's evaluation order.
\<close>

definition apply_rotary_pos_emb :: "vec \<Rightarrow> vec \<Rightarrow> error + vec" where
  "apply_rotary_pos_emb pos t =
     bindE (broadcast2 (*) t (map cos pos)) (\<lambda>a.
     bindE (rotate_half t) (\<lambda>r.
     bindE (broadcast2 (*) r (map sin pos)) (\<lambda>b.
     broadcast2 (+) a b)))"

section \<open>Convolutional positional embedding\<close>

text \<open>
  \<open>nn.Conv1d(dim, dim, kernel_size, groups = groups, padding = kernel_size // 2)\<close>: the
  weight has shape \<open>[out, in / groups, k]\<close>. The constructor raises ValueError unless
  \<open>groups\<close> is positive and divides the channels, and RuntimeError on a negative size.
\<close>

record conv1d =
  cv_in :: nat
  cv_out :: nat
  cv_kernel :: nat
  cv_groups :: nat
  cv_padding :: nat
  cv_weight :: "real list list list"
  cv_bias :: "real list"

definition ConvPositionEmbed_init ::
  "nat \<Rightarrow> int \<Rightarrow> nat option \<Rightarrow> (nat \<Rightarrow> nat \<Rightarrow> nat \<Rightarrow> real) \<Rightarrow> (nat \<Rightarrow> real) \<Rightarrow> error + conv1d" where
  "ConvPositionEmbed_init dim' kernel_size groups w b =
     (if \<not> is_odd kernel_size then Inl AssertionError
      else let groups = default_py groups dim'
           in if groups = 0 \<or> dim' mod groups \<noteq> 0 then Inl ValueError
              else if kernel_size < 0 then Inl RuntimeError
              else Inr \<lparr>cv_in = dim', cv_out = dim', cv_kernel = nat kernel_size,
                        cv_groups = groups, cv_padding = nat (kernel_size div 2),
                        cv_weight = map (\<lambda>c. map (\<lambda>i. map (w c i) [0 ..< nat kernel_size])
                                                 [0 ..< dim' div groups]) [0 ..< dim'],
                        cv_bias = map b [0 ..< dim']\<rparr>)"

text \<open>
  The convolution on one batch element in channel-first layout \<open>[c, n]\<close>. torch raises
  RuntimeError on a wrong number of channels and when the padded length is below the
  kernel size. Output channel \<open>c\<close> reads the input channels of its group.
\<close>

definition Conv1d_forward :: "conv1d \<Rightarrow> mat \<Rightarrow> error + mat" where
  "Conv1d_forward cv x =
     (let n = width x; p = cv_padding cv; k = cv_kernel cv;
          cpg = cv_in cv div cv_groups cv; opg = cv_out cv div cv_groups cv
      in if length x \<noteq> cv_in cv then Inl RuntimeError
         else if n + 2 * p < k then Inl RuntimeError
         else Inr (map (\<lambda>c. map (\<lambda>t. cv_bias cv ! c +
                    sum_list (map (\<lambda>i. sum_list (map (\<lambda>j.
                       cv_weight cv ! c ! i ! j *
                       (replicate p 0 @ x ! ((c div opg) * cpg + i) @ replicate p 0) ! (t + j))
                       [0 ..< k])) [0 ..< cpg]))
                    [0 ..< n + 2 * p + 1 - k]) [0 ..< cv_out cv]))"

text \<open>
  \<open>ConvPositionEmbed.forward\<close>, batch element by batch element: rearrange to channel
  first, convolve, GELU, rearrange back.
\<close>

definition ConvPositionEmbed_forward :: "conv1d \<Rightarrow> tensor3 \<Rightarrow> error + tensor3" where
  "ConvPositionEmbed_forward cv x =
     mapE (\<lambda>s. bindE (Conv1d_forward cv (transpose s))
                  (\<lambda>y. Inr (transpose (map (map gelu) y)))) x"

section \<open>Norms\<close>

record rmsnorm =
  rms_scale :: real
  rms_gamma :: "real list"

definition RMSNorm_init :: "nat \<Rightarrow> rmsnorm" where
  "RMSNorm_init dim' = \<lparr>rms_scale = sqrt (real dim'), rms_gamma = replicate dim' 1\<rparr>"

text \<open>\<open>F.normalize(x, dim = -1)\<close> divides by the L2 norm, clamped below at \<open>1e-12\<close>.\<close>

definition l2norm :: "vec \<Rightarrow> real" where
  "l2norm v = sqrt (sum_list (map (\<lambda>c. c * c) v))"

definition normalize :: "vec \<Rightarrow> vec" where
  "normalize v = map (\<lambda>a. a / max (l2norm v) (1 / 10 ^ 12)) v"

definition RMSNorm_forward :: "rmsnorm \<Rightarrow> vec \<Rightarrow> error + vec" where
  "RMSNorm_forward m v =
     broadcast2 (*) (map (\<lambda>a. a * rms_scale m) (normalize v)) (rms_gamma m)"

section \<open>Attention\<close>

text \<open>
  Modelled from the spec: the class \<open>Attend\<close> of \<open>voicebox_pytorch/attend.py\<close>, which is
  not among the sources. The spec gives its contract: on \<open>q\<close>, \<open>k\<close>, \<open>v\<close> of shape
  \<open>[b, h, n, d]\<close> it returns standard softmax attention of the same shape. Here for one
  batch element, \<open>[h, n, d]\<close>, without a mask (no caller passes one).
\<close>

definition softmax :: "vec \<Rightarrow> vec" where
  "softmax xs = map (\<lambda>x. exp x / sum_list (map exp xs)) xs"

definition attend_head :: "mat \<Rightarrow> mat \<Rightarrow> mat \<Rightarrow> mat" where
  "attend_head q k v =
     map (\<lambda>qi. let w = softmax (map (\<lambda>kj. dot qi kj / sqrt (real (length qi))) k)
               in map (\<lambda>c. sum_list (map2 (\<lambda>a r. a * r ! c) w v)) [0 ..< width v]) q"

definition attend :: "tensor3 \<Rightarrow> tensor3 \<Rightarrow> tensor3 \<Rightarrow> tensor3" where
  "attend q k v = map (\<lambda>(qh, kh, vh). attend_head qh kh vh) (zip q (zip k v))"

record attention =
  at_heads :: nat
  at_scale :: real
  at_norm :: rmsnorm
  to_qkv :: linear
  to_out :: linear

text \<open>
  \<open>Attention.__init__\<close>. \<open>self.scale = dim_head ** -0.5\<close> raises ZeroDivisionError when
  \<open>dim_head\<close> is 0; \<open>forward\<close> does not read the field.
\<close>

definition Attention_init ::
  "nat \<Rightarrow> nat \<Rightarrow> nat \<Rightarrow> (nat \<Rightarrow> nat \<Rightarrow> real) \<Rightarrow> (nat \<Rightarrow> nat \<Rightarrow> real)
     \<Rightarrow> error + attention" where
  "Attention_init dim' dim_head heads wqkv wout =
     (if dim_head = 0 then Inl ZeroDivisionError
      else let dim_inner = dim_head * heads
           in Inr \<lparr>at_heads = heads, at_scale = 1 / sqrt (real dim_head),
                   at_norm = RMSNorm_init dim',
                   to_qkv = Linear_init dim' (dim_inner * 3) wqkv None,
                   to_out = Linear_init dim_inner dim' wout None\<rparr>)"

text \<open>
  \<open>rearrange(t, 'n (h d) -> h n d', h = h)\<close> and its inverse \<open>'h n d -> n (h d)\<close> on one
  batch element; einops raises when \<open>h\<close> does not divide the width.
\<close>

definition split_heads :: "nat \<Rightarrow> mat \<Rightarrow> error + tensor3" where
  "split_heads h t =
     (if \<exists>r \<in> set t. length r mod h \<noteq> 0 then Inl EinopsError
      else Inr (map (\<lambda>i. map (\<lambda>r. let d = length r div h in take d (drop (i * d) r)) t)
                  [0 ..< h]))"

definition merge_heads :: "tensor3 \<Rightarrow> mat" where
  "merge_heads out = map (\<lambda>t. concat (map (\<lambda>hd'. hd' ! t) out)) [0 ..< seq_len out]"

text \<open>
  \<open>q, k, v = self.to_qkv(x).chunk(3, dim = -1)\<close>: the unpacking raises ValueError unless
  three pieces come back.
\<close>

definition chunk_qkv :: "mat \<Rightarrow> error + mat \<times> mat \<times> mat" where
  "chunk_qkv t =
     bindE (mapE (\<lambda>r. case chunk 3 r of [q, k, v] \<Rightarrow> Inr (q, k, v) | _ \<Rightarrow> Inl ValueError) t)
       (\<lambda>ps. Inr (map fst ps, map (fst \<circ> snd) ps, map (snd \<circ> snd) ps))"

text \<open>
  The call \<open>apply_rotary_pos_emb(t, rotary_emb)\<close> of \<open>Attention.forward\<close> on one batch
  element \<open>[h, n, d]\<close>: the source passes the projected tensor first and the angle table
  second, so the tensor lands in the parameter \<open>pos\<close> and the table in \<open>t\<close>.
\<close>

definition rotary_call :: "tensor3 \<Rightarrow> mat \<Rightarrow> error + tensor3" where
  "rotary_call t rotary = mapE (\<lambda>th. zipE apply_rotary_pos_emb th rotary) t"

text \<open>\<open>Attention.forward\<close> on one batch element \<open>[n, dim]\<close>, and on the batch.\<close>

definition Attention_seq :: "attention \<Rightarrow> mat \<Rightarrow> mat \<Rightarrow> error + mat" where
  "Attention_seq a rotary x =
     bindE (mapE (RMSNorm_forward (at_norm a)) x) (\<lambda>x.
     bindE (mapE (Linear_forward (to_qkv a)) x) (\<lambda>qkv.
     bindE (chunk_qkv qkv) (\<lambda>(q, k, v).
     bindE (split_heads (at_heads a) q) (\<lambda>q.
     bindE (split_heads (at_heads a) k) (\<lambda>k.
     bindE (split_heads (at_heads a) v) (\<lambda>v.
     bindE (rotary_call q rotary) (\<lambda>q.
     bindE (rotary_call k rotary) (\<lambda>k.
     mapE (Linear_forward (to_out a)) (merge_heads (attend q k v))))))))))"

definition Attention_forward :: "attention \<Rightarrow> tensor3 \<Rightarrow> mat \<Rightarrow> error + tensor3" where
  "Attention_forward a x rotary = mapE (Attention_seq a rotary) x"

section \<open>Feedforward\<close>

record feedforward =
  ff_norm :: rmsnorm
  ff_in :: linear
  ff_out :: linear

definition FeedForward ::
  "nat \<Rightarrow> nat \<Rightarrow> (nat \<Rightarrow> nat \<Rightarrow> real) \<Rightarrow> (nat \<Rightarrow> real) \<Rightarrow> (nat \<Rightarrow> nat \<Rightarrow> real) \<Rightarrow> (nat \<Rightarrow> real)
     \<Rightarrow> feedforward" where
  "FeedForward dim' mult w1 b1 w2 b2 =
     \<lparr>ff_norm = RMSNorm_init dim',
      ff_in = Linear_init dim' (dim' * mult) w1 (Some b1),
      ff_out = Linear_init (dim' * mult) dim' w2 (Some b2)\<rparr>"

definition FeedForward_vec :: "feedforward \<Rightarrow> vec \<Rightarrow> error + vec" where
  "FeedForward_vec f v =
     bindE (RMSNorm_forward (ff_norm f) v) (\<lambda>v.
     bindE (Linear_forward (ff_in f) v) (\<lambda>v.
     Linear_forward (ff_out f) (map gelu v)))"

definition FeedForward_forward :: "feedforward \<Rightarrow> tensor3 \<Rightarrow> error + tensor3" where
  "FeedForward_forward f = mapE (mapE (FeedForward_vec f))"

section \<open>Transformer\<close>

record layer =
  skip_combiner :: "linear option"
  attn :: attention
  ff :: feedforward

record transformer =
  layers :: "layer list"
  rotary_emb :: "real list"

text \<open>The initial values of one layer's parameters (random in the source).\<close>

record layer_ini =
  skip_w :: "nat \<Rightarrow> nat \<Rightarrow> real"
  skip_b :: "nat \<Rightarrow> real"
  qkv_w :: "nat \<Rightarrow> nat \<Rightarrow> real"
  out_w :: "nat \<Rightarrow> nat \<Rightarrow> real"
  ff_in_w :: "nat \<Rightarrow> nat \<Rightarrow> real"
  ff_in_b :: "nat \<Rightarrow> real"
  ff_out_w :: "nat \<Rightarrow> nat \<Rightarrow> real"
  ff_out_b :: "nat \<Rightarrow> real"

text \<open>
  \<open>Transformer.__init__\<close>: \<open>depth\<close> is a Python integer, \<open>range(depth)\<close> is empty when it
  is not positive. The layers are built in order, so the first \<open>Attention\<close> that fails
  ends the construction.
\<close>

definition Transformer_init ::
  "nat \<Rightarrow> int \<Rightarrow> nat \<Rightarrow> nat \<Rightarrow> nat \<Rightarrow> (nat \<Rightarrow> layer_ini) \<Rightarrow> error + transformer" where
  "Transformer_init dim' depth dim_head heads ff_mult ini =
     (if \<not> divisible_by depth 2 then Inl AssertionError
      else bindE
        (mapE (\<lambda>ind. let layer = int ind + 1; has_skip = layer > depth div 2
                 in bindE (Attention_init dim' dim_head heads (qkv_w (ini ind))
                             (out_w (ini ind)))
                      (\<lambda>a. Inr \<lparr>skip_combiner =
                                  (if has_skip
                                   then Some (Linear_init (dim' * 2) dim' (skip_w (ini ind))
                                                (Some (skip_b (ini ind))))
                                   else None),
                                attn = a,
                                ff = FeedForward dim' ff_mult (ff_in_w (ini ind))
                                       (ff_in_b (ini ind)) (ff_out_w (ini ind))
                                       (ff_out_b (ini ind))\<rparr>))
           [0 ..< nat depth])
        (\<lambda>ls. Inr \<lparr>layers = ls, rotary_emb = RotaryEmbedding_init dim_head 10000\<rparr>))"

text \<open>
  The two residual steps of the loop body: \<open>x = attn(x, rotary_emb = rotary_emb) + x\<close>
  and \<open>x = ff(x) + x\<close>.
\<close>

definition residual_steps :: "mat \<Rightarrow> layer \<Rightarrow> tensor3 \<Rightarrow> error + tensor3" where
  "residual_steps rotary l x =
     bindE (Attention_forward (attn l) x rotary) (\<lambda>a.
     bindE (add3 a x) (\<lambda>x.
     bindE (FeedForward_forward (ff l) x) (\<lambda>f.
     add3 f x)))"

text \<open>
  The skip step of the loop body. \<open>skip_connects\<close> is a Python list: \<open>append\<close> adds at
  the end, \<open>pop()\<close> removes the last element and raises IndexError on an empty list.
\<close>

definition skip_step ::
  "layer \<Rightarrow> tensor3 \<Rightarrow> tensor3 list \<Rightarrow> error + tensor3 \<times> tensor3 list" where
  "skip_step l x skip_connects =
     (case skip_combiner l of
        None \<Rightarrow> Inr (x, skip_connects @ [x])
      | Some combiner \<Rightarrow>
          if skip_connects = [] then Inl IndexError
          else bindE (cat_last x (last skip_connects)) (\<lambda>c.
               bindE (mapE (mapE (Linear_forward combiner)) c) (\<lambda>x.
               Inr (x, butlast skip_connects))))"

fun Transformer_loop ::
  "mat \<Rightarrow> layer list \<Rightarrow> tensor3 \<Rightarrow> tensor3 list \<Rightarrow> error + tensor3" where
  "Transformer_loop rotary [] x skip_connects = Inr x"
| "Transformer_loop rotary (l # ls) x skip_connects =
     bindE (skip_step l x skip_connects) (\<lambda>(x, skip_connects).
     bindE (residual_steps rotary l x) (\<lambda>x.
     Transformer_loop rotary ls x skip_connects))"

definition Transformer_forward :: "transformer \<Rightarrow> tensor3 \<Rightarrow> error + tensor3" where
  "Transformer_forward t x =
     (let skip_connects = [];
          rotary = RotaryEmbedding_forward (rotary_emb t) (seq_len x)
      in Transformer_loop rotary (layers t) x skip_connects)"

section \<open>Losses\<close>

text \<open>
  \<open>F.l1_loss\<close> and \<open>F.mse_loss\<close> with \<open>reduction = 'none'\<close>, and with the default mean over
  every element. A missing target raises AttributeError.
\<close>

definition l1 :: "real \<Rightarrow> real \<Rightarrow> real" where
  "l1 a b = \<bar>a - b\<bar>"

definition mse :: "real \<Rightarrow> real \<Rightarrow> real" where
  "mse a b = (a - b) * (a - b)"

definition loss_none :: "(real \<Rightarrow> real \<Rightarrow> real) \<Rightarrow> tensor3 \<Rightarrow> tensor3 option \<Rightarrow> error + tensor3" where
  "loss_none f x target =
     (case target of None \<Rightarrow> Inl AttributeError
      | Some t \<Rightarrow> zipE (zipE (broadcast2 f)) x t)"

definition loss_mean ::
  "(real \<Rightarrow> real \<Rightarrow> real) \<Rightarrow> tensor3 \<Rightarrow> tensor3 option \<Rightarrow> error + real option" where
  "loss_mean f x target = bindE (loss_none f x target) (\<lambda>l. Inr (mean_opt (concat (concat l))))"

text \<open>Sum, mean and division of scalars that may be non-finite.\<close>

definition sum_opt :: "real option list \<Rightarrow> real option" where
  "sum_opt xs = map_option sum_list (those xs)"

definition mean_opts :: "real option list \<Rightarrow> real option" where
  "mean_opts xs = (case those xs of None \<Rightarrow> None | Some ys \<Rightarrow> mean_opt ys)"

definition fdiv :: "real option \<Rightarrow> real \<Rightarrow> real option" where
  "fdiv a d = (if d = 0 then None else map_option (\<lambda>c. c / d) a)"

text \<open>
  The masked branch of both \<open>forward\<close> methods, from \<open>reduce(loss, 'b n d -> b n', 'mean')\<close>
  to \<open>loss.mean()\<close>. \<open>mask.sum(dim = -1)\<close> counts the True entries of each row.
\<close>

definition masked_loss :: "tensor3 \<Rightarrow> bool list list \<Rightarrow> error + real option" where
  "masked_loss loss mask' =
     (let loss = map (map mean_opt) loss
      in bindE (zipE (zipE (\<lambda>v m. Inr (if m then Some 0 else v))) loss mask') (\<lambda>loss.
         let num = map sum_opt loss;
             den = map (\<lambda>m. max (real (length (filter id m))) (1 / 10 ^ 5)) mask'
         in bindE (zipE (\<lambda>a d. Inr (fdiv a d)) num den) (\<lambda>loss.
            Inr (mean_opts loss))))"

section \<open>Duration predictor and VoiceBox\<close>

text \<open>
  The two classes have the same fields, VoiceBox one more; their \<open>forward\<close> methods repeat
  the same lines for classifier free guidance, for the embedding and for the masked loss.
  The model has one record and one function for each repeated block.
\<close>

record duration_predictor =
  null_phoneme_id :: int
  to_phoneme_emb :: "real list list"
  to_embed :: linear
  null_cond :: "real list"
  conv_embed :: conv1d
  transformer :: transformer

record voicebox = duration_predictor +
  sinu_pos_emb :: "real list"

record model_ini =
  emb_w :: "nat \<Rightarrow> nat \<Rightarrow> real"
  embed_w :: "nat \<Rightarrow> nat \<Rightarrow> real"
  embed_b :: "nat \<Rightarrow> real"
  conv_w :: "nat \<Rightarrow> nat \<Rightarrow> nat \<Rightarrow> real"
  conv_b :: "nat \<Rightarrow> real"
  layer_w :: "nat \<Rightarrow> layer_ini"
  sinu_w :: "nat \<Rightarrow> real"

definition DurationPredictor_init ::
  "nat \<Rightarrow> nat \<Rightarrow> nat \<Rightarrow> int \<Rightarrow> nat \<Rightarrow> nat \<Rightarrow> nat \<Rightarrow> int \<Rightarrow> nat option \<Rightarrow> model_ini
     \<Rightarrow> error + duration_predictor" where
  "DurationPredictor_init num_phoneme_tokens dim_phoneme_emb dim' depth dim_head heads ff_mult
       conv_pos_embed_kernel_size conv_pos_embed_groups ini =
     bindE (ConvPositionEmbed_init dim' conv_pos_embed_kernel_size conv_pos_embed_groups
              (conv_w ini) (conv_b ini)) (\<lambda>cv.
     bindE (Transformer_init dim' depth dim_head heads ff_mult (layer_w ini)) (\<lambda>tr.
     Inr \<lparr>null_phoneme_id = int num_phoneme_tokens,
          to_phoneme_emb = map (\<lambda>r. map (emb_w ini r) [0 ..< dim_phoneme_emb])
                             [0 ..< num_phoneme_tokens + 1],
          to_embed = Linear_init (dim' * 2 + dim_phoneme_emb) dim' (embed_w ini)
                       (Some (embed_b ini)),
          null_cond = replicate dim' 0,
          conv_embed = cv,
          transformer = tr\<rparr>))"

definition VoiceBox_init ::
  "nat \<Rightarrow> nat \<Rightarrow> nat \<Rightarrow> int \<Rightarrow> nat \<Rightarrow> nat \<Rightarrow> nat \<Rightarrow> int \<Rightarrow> nat option \<Rightarrow> model_ini
     \<Rightarrow> error + voicebox" where
  "VoiceBox_init num_phoneme_tokens dim_phoneme_emb dim' depth dim_head heads ff_mult
       conv_pos_embed_kernel_size conv_pos_embed_groups ini =
     bindE (LearnedSinusoidalPosEmb_init (int dim') (sinu_w ini)) (\<lambda>sinu.
     bindE (DurationPredictor_init num_phoneme_tokens dim_phoneme_emb dim' depth dim_head heads
              ff_mult conv_pos_embed_kernel_size conv_pos_embed_groups ini) (\<lambda>m.
     Inr (duration_predictor.extend m (voicebox.fields sinu))))"

text \<open>
  Classifier free guidance: \<open>torch.where\<close> broadcasts the per-example mask against the
  null conditioning vector and \<open>cond\<close>, and against the null id and \<open>phoneme_ids\<close>.
\<close>

definition cond_drop ::
  "'a duration_predictor_scheme \<Rightarrow> real \<Rightarrow> (nat \<Rightarrow> real) \<Rightarrow> tensor3 \<Rightarrow> int list list
     \<Rightarrow> error + tensor3 \<times> int list list" where
  "cond_drop m cond_drop_prob us cond phoneme_ids =
     (if cond_drop_prob > 0 then
        let cond_drop_mask = prob_mask_like (length cond) cond_drop_prob us
        in bindE (zipE (\<lambda>c s. mapE (broadcast2 (\<lambda>a b. if c then a else b) (null_cond m)) s)
                    cond_drop_mask cond) (\<lambda>cond.
           bindE (zipE (\<lambda>c r. Inr (map (\<lambda>i. if c then null_phoneme_id m else i) r))
                    cond_drop_mask phoneme_ids) (\<lambda>phoneme_ids.
           Inr (cond, phoneme_ids)))
      else Inr (cond, phoneme_ids))"

text \<open>
  From \<open>phoneme_emb = self.to_phoneme_emb(phoneme_ids)\<close> to \<open>x = self.conv_embed(x) + x\<close>.
\<close>

definition embed_inputs ::
  "'a duration_predictor_scheme \<Rightarrow> tensor3 \<Rightarrow> int list list \<Rightarrow> tensor3 \<Rightarrow> error + tensor3" where
  "embed_inputs m x phoneme_ids cond =
     bindE (mapE (mapE (Embedding_forward (to_phoneme_emb m))) phoneme_ids) (\<lambda>phoneme_emb.
     bindE (cat_last x phoneme_emb) (\<lambda>e.
     bindE (cat_last e cond) (\<lambda>embed.
     bindE (mapE (mapE (Linear_forward (to_embed m))) embed) (\<lambda>x.
     bindE (ConvPositionEmbed_forward (conv_embed m) x) (\<lambda>c.
     add3 c x)))))"

text \<open>
  \<open>DurationPredictor.forward\<close> after its assertion, up to \<open>x = self.transformer(x)\<close>.
\<close>

definition DurationPredictor_predict ::
  "duration_predictor \<Rightarrow> tensor3 \<Rightarrow> int list list \<Rightarrow> tensor3 \<Rightarrow> real \<Rightarrow> (nat \<Rightarrow> real)
     \<Rightarrow> error + tensor3" where
  "DurationPredictor_predict m x phoneme_ids cond cond_drop_prob us =
     bindE (cond_drop m cond_drop_prob us cond phoneme_ids) (\<lambda>(cond, phoneme_ids).
     bindE (embed_inputs m x phoneme_ids cond) (\<lambda>x.
     Transformer_forward (transformer m) x))"

definition DurationPredictor_forward ::
  "duration_predictor \<Rightarrow> tensor3 \<Rightarrow> int list list \<Rightarrow> tensor3 \<Rightarrow> real \<Rightarrow> tensor3 option
     \<Rightarrow> bool list list option \<Rightarrow> (nat \<Rightarrow> real) \<Rightarrow> error + real option" where
  "DurationPredictor_forward m x phoneme_ids cond cond_drop_prob target mask' us =
     (if last_dim cond \<noteq> last_dim x then Inl AssertionError
      else bindE (DurationPredictor_predict m x phoneme_ids cond cond_drop_prob us) (\<lambda>x.
           case mask' of
             None \<Rightarrow> loss_mean l1 x target
           | Some mk \<Rightarrow> bindE (loss_none l1 x target) (\<lambda>loss. masked_loss loss mk)))"

text \<open>A scalar tensor combined as \<open>null_logits + (logits - null_logits) * cond_scale\<close>.\<close>

definition guide_scalar :: "real option \<Rightarrow> real option \<Rightarrow> real \<Rightarrow> real option" where
  "guide_scalar null_logits logits cond_scale =
     (case (null_logits, logits) of
        (Some n, Some l) \<Rightarrow> Some (n + (l - n) * cond_scale)
      | _ \<Rightarrow> None)"

definition DurationPredictor_forward_with_cond_scale ::
  "duration_predictor \<Rightarrow> tensor3 \<Rightarrow> int list list \<Rightarrow> tensor3 \<Rightarrow> real \<Rightarrow> tensor3 option
     \<Rightarrow> bool list list option \<Rightarrow> (nat \<Rightarrow> real) \<Rightarrow> error + real option" where
  "DurationPredictor_forward_with_cond_scale m x phoneme_ids cond cond_scale target mask' us =
     bindE (DurationPredictor_forward m x phoneme_ids cond 0 target mask' us) (\<lambda>logits.
     if cond_scale = 1 then Inr logits
     else bindE (DurationPredictor_forward m x phoneme_ids cond 1 target mask' us)
            (\<lambda>null_logits. Inr (guide_scalar null_logits logits cond_scale)))"

text \<open>
  \<open>pack((time_emb, x), 'b * d')\<close> puts the time embedding in front of each sequence and
  records the packed shapes \<open>[(), (n,)]\<close>. It first reshapes each tensor to \<open>[b, -1, d]\<close>,
  which raises RuntimeError on a tensor whose batch or last axis is empty, the size that
  \<open>-1\<close> stands for being ambiguous; the concatenation raises RuntimeError when the batch
  sizes or the widths differ. \<open>unpack(x, ps, 'b * d')\<close> splits the second axis by the
  products of the packed shapes and raises RuntimeError when the sizes do not add up.
\<close>

definition pack :: "mat \<Rightarrow> tensor3 \<Rightarrow> error + tensor3 \<times> nat list list" where
  "pack time_emb x =
     (if time_emb = [] \<or> [] \<in> set time_emb \<or> x = [] \<or> [] \<in> set (concat x)
      then Inl RuntimeError
      else if length time_emb \<noteq> length x
         \<or> (\<exists>(t, s) \<in> set (zip time_emb x). \<exists>r \<in> set s. length r \<noteq> length t)
      then Inl RuntimeError
      else Inr (map2 (#) time_emb x, [[], [seq_len x]]))"

definition unpack :: "tensor3 \<Rightarrow> nat list list \<Rightarrow> error + tensor3 list" where
  "unpack x ps =
     (let lens = map prod_list ps
      in if \<exists>s \<in> set x. length s \<noteq> sum_list lens then Inl RuntimeError
         else Inr (map (\<lambda>i. map (\<lambda>s. take (lens ! i) (drop (sum_list (take i lens)) s)) x)
                     [0 ..< length ps]))"

datatype returned = Loss "real option" | Logits tensor3

text \<open>
  \<open>VoiceBox.forward\<close> after its assertion, up to \<open>_, x = unpack(x, ps, 'b * d')\<close>; the
  unpacking into two names raises ValueError unless two parts come back.
\<close>

definition VoiceBox_predict ::
  "voicebox \<Rightarrow> tensor3 \<Rightarrow> int list list \<Rightarrow> tensor3 \<Rightarrow> real list \<Rightarrow> real \<Rightarrow> (nat \<Rightarrow> real)
     \<Rightarrow> error + tensor3" where
  "VoiceBox_predict m x phoneme_ids cond times' cond_drop_prob us =
     bindE (cond_drop m cond_drop_prob us cond phoneme_ids) (\<lambda>(cond, phoneme_ids).
     bindE (embed_inputs m x phoneme_ids cond) (\<lambda>x.
     let time_emb = LearnedSinusoidalPosEmb_forward (sinu_pos_emb m) times'
     in bindE (pack time_emb x) (\<lambda>(x, ps).
        bindE (Transformer_forward (transformer m) x) (\<lambda>x.
        bindE (unpack x ps) (\<lambda>parts.
        case parts of [_, x] \<Rightarrow> Inr x | _ \<Rightarrow> Inl ValueError)))))"

definition VoiceBox_forward ::
  "voicebox \<Rightarrow> tensor3 \<Rightarrow> int list list \<Rightarrow> tensor3 \<Rightarrow> real list \<Rightarrow> real \<Rightarrow> tensor3 option
     \<Rightarrow> bool list list option \<Rightarrow> (nat \<Rightarrow> real) \<Rightarrow> error + returned" where
  "VoiceBox_forward m x phoneme_ids cond times' cond_drop_prob target mask' us =
     (if last_dim cond \<noteq> last_dim x then Inl AssertionError
      else bindE (VoiceBox_predict m x phoneme_ids cond times' cond_drop_prob us) (\<lambda>x.
           if \<not> exists target then Inr (Logits x)
           else case mask' of
             None \<Rightarrow> bindE (loss_mean mse x target) (\<lambda>l. Inr (Loss l))
           | Some mk \<Rightarrow>
               bindE (loss_none mse x target) (\<lambda>loss.
               bindE (masked_loss loss mk) (\<lambda>l. Inr (Loss l)))))"

definition guide :: "returned \<Rightarrow> returned \<Rightarrow> real \<Rightarrow> error + returned" where
  "guide null_logits logits cond_scale =
     (case (null_logits, logits) of
        (Loss n, Loss l) \<Rightarrow> Inr (Loss (guide_scalar n l cond_scale))
      | (Logits n, Logits l) \<Rightarrow>
          bindE (sub3 l n) (\<lambda>d.
          bindE (add3 n (map (map (map (\<lambda>a. a * cond_scale))) d)) (\<lambda>r. Inr (Logits r)))
      | _ \<Rightarrow> Inl NotModelled)"

definition VoiceBox_forward_with_cond_scale ::
  "voicebox \<Rightarrow> tensor3 \<Rightarrow> int list list \<Rightarrow> tensor3 \<Rightarrow> real list \<Rightarrow> real \<Rightarrow> tensor3 option
     \<Rightarrow> bool list list option \<Rightarrow> (nat \<Rightarrow> real) \<Rightarrow> error + returned" where
  "VoiceBox_forward_with_cond_scale m x phoneme_ids cond times' cond_scale target mask' us =
     bindE (VoiceBox_forward m x phoneme_ids cond times' 0 target mask' us) (\<lambda>logits.
     if cond_scale = 1 then Inr logits
     else bindE (VoiceBox_forward m x phoneme_ids cond times' 1 target mask' us)
            (\<lambda>null_logits. guide null_logits logits cond_scale))"

definition CNFWrapper_forward :: "tensor3 \<Rightarrow> tensor3" where
  "CNFWrapper_forward x = x"

section \<open>Well-formed modules\<close>

text \<open>
  The shapes the constructors give to the parameters; an optimizer changes the values and
  keeps the shapes. \<open>wf_transformer t d\<close> also asks for what makes the attention layers run:
  at least one head and an even, positive head dimension (the rotary table has twice
  \<open>length (rotary_emb t)\<close> columns), and the skip combiners in the second half of an even
  number of layers.
\<close>

definition wf_linear :: "linear \<Rightarrow> nat \<Rightarrow> nat \<Rightarrow> bool" where
  "wf_linear l i k \<longleftrightarrow>
     in_features l = i \<and> has_shape2 (lin_weight l) k i
     \<and> (case lin_bias l of None \<Rightarrow> True | Some b \<Rightarrow> length b = k)"

definition wf_attention :: "attention \<Rightarrow> nat \<Rightarrow> nat \<Rightarrow> bool" where
  "wf_attention a d dim_head \<longleftrightarrow>
     0 < at_heads a \<and> length (rms_gamma (at_norm a)) = d
     \<and> wf_linear (to_qkv a) d (dim_head * at_heads a * 3)
     \<and> wf_linear (to_out a) (dim_head * at_heads a) d"

definition wf_feedforward :: "feedforward \<Rightarrow> nat \<Rightarrow> bool" where
  "wf_feedforward f d \<longleftrightarrow>
     length (rms_gamma (ff_norm f)) = d
     \<and> wf_linear (ff_in f) d (length (lin_weight (ff_in f)))
     \<and> wf_linear (ff_out f) (length (lin_weight (ff_in f))) d"

definition wf_layer :: "layer \<Rightarrow> nat \<Rightarrow> nat \<Rightarrow> bool" where
  "wf_layer l d dim_head \<longleftrightarrow>
     (case skip_combiner l of None \<Rightarrow> True | Some c \<Rightarrow> wf_linear c (d * 2) d)
     \<and> wf_attention (attn l) d dim_head \<and> wf_feedforward (ff l) d"

definition wf_transformer :: "transformer \<Rightarrow> nat \<Rightarrow> bool" where
  "wf_transformer t d \<longleftrightarrow>
     0 < length (rotary_emb t)
     \<and> (\<forall>l \<in> set (layers t). wf_layer l d (2 * length (rotary_emb t)))
     \<and> even (length (layers t))
     \<and> (\<forall>i < length (layers t).
           skip_combiner (layers t ! i) \<noteq> None \<longleftrightarrow> length (layers t) div 2 \<le> i)"

definition wf_conv :: "conv1d \<Rightarrow> nat \<Rightarrow> bool" where
  "wf_conv cv d \<longleftrightarrow>
     cv_in cv = d \<and> cv_out cv = d \<and> cv_kernel cv = 2 * cv_padding cv + 1
     \<and> 0 < cv_groups cv \<and> d mod cv_groups cv = 0
     \<and> length (cv_bias cv) = d \<and> length (cv_weight cv) = d
     \<and> (\<forall>w \<in> set (cv_weight cv). has_shape2 w (d div cv_groups cv) (cv_kernel cv))"

definition wf_predictor :: "'a duration_predictor_scheme \<Rightarrow> nat \<Rightarrow> bool" where
  "wf_predictor m d \<longleftrightarrow>
     0 < d \<and> 0 \<le> null_phoneme_id m
     \<and> has_shape2 (to_phoneme_emb m) (nat (null_phoneme_id m) + 1) (width (to_phoneme_emb m))
     \<and> wf_linear (to_embed m) (d * 2 + width (to_phoneme_emb m)) d
     \<and> length (null_cond m) = d
     \<and> wf_conv (conv_embed m) d
     \<and> wf_transformer (transformer m) d"

definition wf_voicebox :: "voicebox \<Rightarrow> nat \<Rightarrow> bool" where
  "wf_voicebox m d \<longleftrightarrow> wf_predictor m d \<and> 2 * length (sinu_pos_emb m) = d"

text \<open>
  Inputs that match a model of dimension \<open>d\<close>: \<open>x\<close> and \<open>cond\<close> of shape \<open>[b, n, d]\<close>,
  \<open>phoneme_ids\<close> of shape \<open>[b, n]\<close> with every id a trained id or the null id.
\<close>

definition matching_inputs ::
  "'a duration_predictor_scheme \<Rightarrow> nat \<Rightarrow> nat \<Rightarrow> nat \<Rightarrow> tensor3 \<Rightarrow> int list list \<Rightarrow> tensor3 \<Rightarrow> bool" where
  "matching_inputs m b n d x phoneme_ids cond \<longleftrightarrow>
     has_shape3 x b n d \<and> has_shape3 cond b n d \<and> has_shape2 phoneme_ids b n
     \<and> (\<forall>r \<in> set phoneme_ids. \<forall>i \<in> set r. 0 \<le> i \<and> i \<le> null_phoneme_id m)"

section \<open>Proof support and example instances\<close>

text \<open>
  \<open>pops_ok ls s\<close>: running the layers \<open>ls\<close> from a stack of \<open>s\<close> skip connections never
  pops an empty stack.
\<close>

fun pops_ok :: "layer list \<Rightarrow> nat \<Rightarrow> bool" where
  "pops_ok [] s = True"
| "pops_ok (l # ls) s =
     (case skip_combiner l of None \<Rightarrow> pops_ok ls (Suc s) | Some _ \<Rightarrow> 0 < s \<and> pops_ok ls (s - 1))"

text \<open>
  A small predictor and a small VoiceBox, built by the constructors with every initial
  value 0: two phoneme tokens, phoneme embedding dimension 1, dimension 2, depth 2, one
  head of dimension 2, feedforward multiplier 1, kernel size 3, depthwise convolution.
  With them one batch element of three positions.
\<close>

definition zero_layer_ini :: layer_ini where
  "zero_layer_ini =
     \<lparr>skip_w = (\<lambda>_ _. 0), skip_b = (\<lambda>_. 0), qkv_w = (\<lambda>_ _. 0), out_w = (\<lambda>_ _. 0),
      ff_in_w = (\<lambda>_ _. 0), ff_in_b = (\<lambda>_. 0), ff_out_w = (\<lambda>_ _. 0), ff_out_b = (\<lambda>_. 0)\<rparr>"

definition zero_ini :: model_ini where
  "zero_ini =
     \<lparr>emb_w = (\<lambda>_ _. 0), embed_w = (\<lambda>_ _. 0), embed_b = (\<lambda>_. 0), conv_w = (\<lambda>_ _ _. 0),
      conv_b = (\<lambda>_. 0), layer_w = (\<lambda>_. zero_layer_ini), sinu_w = (\<lambda>_. 0)\<rparr>"

definition example_predictor :: duration_predictor where
  "example_predictor = projr (DurationPredictor_init 2 1 2 2 2 1 1 3 None zero_ini)"

definition example_voicebox :: voicebox where
  "example_voicebox = projr (VoiceBox_init 2 1 2 2 2 1 1 3 None zero_ini)"

definition example_x :: tensor3 where
  "example_x = [[[1, 2], [3, 4], [5, 6]]]"

definition example_cond :: tensor3 where
  "example_cond = [[[0, 1], [1, 0], [1, 1]]]"

definition example_ids :: "int list list" where
  "example_ids = [[0, 1, 1]]"

definition example_target :: tensor3 where
  "example_target = [[[1, 1], [1, 1], [1, 1]]]"

text \<open>
  The masked loss in closed form, as the code computes it (\<open>code_masked\<close>: each row's sum
  divided by the number of True entries of its mask, clamped), and as the specification words
  it (\<open>spec_masked_loss\<close>: divided by the number of positions that are not excluded, the
  False entries, clamped).
\<close>

definition code_masked :: "tensor3 \<Rightarrow> bool list list \<Rightarrow> real option" where
  "code_masked loss mk =
     mean_opts (map2 (\<lambda>row m.
       fdiv (sum_opt (map2 (\<lambda>v c. if c then Some 0 else mean_opt v) row m))
            (max (real (length (filter id m))) (1 / 10 ^ 5))) loss mk)"

definition spec_masked_loss :: "tensor3 \<Rightarrow> bool list list \<Rightarrow> real option" where
  "spec_masked_loss loss mk =
     mean_opts (map2 (\<lambda>row m.
       fdiv (sum_opt (map2 (\<lambda>v c. if c then Some 0 else mean_opt v) row m))
            (max (real (length (filter (\<lambda>c. \<not> c) m))) (1 / 10 ^ 5))) loss mk)"

text \<open>
  The rotation of the pairs \<open>(a\<^sub>j, b\<^sub>j)\<close> of two half vectors by the angles \<open>th\<^sub>j\<close>.
\<close>

definition rotate_pairs :: "vec \<Rightarrow> vec \<Rightarrow> vec \<Rightarrow> vec" where
  "rotate_pairs th a b =
     map (\<lambda>(x, y, t). x * cos t - y * sin t) (zip a (zip b th))
     @ map (\<lambda>(x, y, t). y * cos t + x * sin t) (zip a (zip b th))"

text \<open>
  The Transformer's loop as the specification words it, with the kept inputs under their
  layer's index instead of a stack: layer \<open>k\<close> of the first half keeps its pre-attention input;
  layer \<open>k\<close> of the second half takes the input kept by layer \<open>depth + 1 - k\<close>, concatenates it
  with \<open>x\<close> along the feature axis and maps the result back through its combiner; every
  layer then does the two residual steps. Layers count from 1.
\<close>

fun spec_layers ::
  "nat \<Rightarrow> mat \<Rightarrow> layer list \<Rightarrow> nat \<Rightarrow> (nat \<Rightarrow> tensor3) \<Rightarrow> tensor3 \<Rightarrow> error + tensor3" where
  "spec_layers depth rotary [] k inputs x = Inr x"
| "spec_layers depth rotary (l # ls) k inputs x =
     (if k \<le> depth div 2
      then bindE (residual_steps rotary l x)
             (\<lambda>y. spec_layers depth rotary ls (Suc k) (inputs(k := x)) y)
      else case skip_combiner l of
             None \<Rightarrow> Inl NotModelled
           | Some combiner \<Rightarrow>
               bindE (cat_last x (inputs (depth + 1 - k))) (\<lambda>c.
               bindE (mapE (mapE (Linear_forward combiner)) c) (\<lambda>x.
               bindE (residual_steps rotary l x) (\<lambda>y.
               spec_layers depth rotary ls (Suc k) inputs y))))"

definition spec_forward :: "transformer \<Rightarrow> tensor3 \<Rightarrow> error + tensor3" where
  "spec_forward t x =
     spec_layers (length (layers t)) (RotaryEmbedding_forward (rotary_emb t) (seq_len x))
       (layers t) 1 (\<lambda>_. []) x"

section \<open>Shapes\<close>

lemma bindE_Inr [simp]: "bindE (Inr v) f = f v"
  by (simp add: bindE_def)

lemma bindE_Inl [simp]: "bindE (Inl e) f = Inl e"
  by (simp add: bindE_def)

lemma bindE_return [simp]: "bindE r Inr = r"
  by (cases r) simp_all

lemma cond_drop_rng:
  "p = 0 \<or> p = 1 \<Longrightarrow> cond_drop m p us cond ids = cond_drop m p us' cond ids"
  by (auto simp: cond_drop_def prob_mask_like_def)

lemma DP_forward_rng:
  "p = 0 \<or> p = 1 \<Longrightarrow>
   DurationPredictor_forward m x ids cond p target mask' us
     = DurationPredictor_forward m x ids cond p target mask' us'"
  unfolding DurationPredictor_forward_def DurationPredictor_predict_def
  using cond_drop_rng [of p m us cond ids us'] by simp

lemma VB_forward_rng:
  "p = 0 \<or> p = 1 \<Longrightarrow>
   VoiceBox_forward m x ids cond ts p target mask' us
     = VoiceBox_forward m x ids cond ts p target mask' us'"
  unfolding VoiceBox_forward_def VoiceBox_predict_def
  using cond_drop_rng [of p m us cond ids us'] by simp

lemma mapE_Inr: "(\<And>x. x \<in> set xs \<Longrightarrow> f x = Inr (g x)) \<Longrightarrow> mapE f xs = Inr (map g xs)"
  by (induction xs) simp_all

lemma zipE_Inr:
  "length xs = length ys \<Longrightarrow> (\<And>x y. (x, y) \<in> set (zip xs ys) \<Longrightarrow> f x y = Inr (g x y))
   \<Longrightarrow> zipE f xs ys = Inr (map2 g xs ys)"
  unfolding zipE_def by (simp, rule mapE_Inr) auto

lemma broadcast2_same: "length u = length v \<Longrightarrow> broadcast2 f u v = Inr (map2 f u v)"
  by (simp add: broadcast2_def)

lemma ewise2_same:
  assumes "has_shape2 s n d" "has_shape2 t n d"
  shows "zipE (broadcast2 f) s t = Inr (map2 (map2 f) s t)"
proof (rule zipE_Inr)
  show "length s = length t" using assms by (simp add: has_shape2_def)
next
  fix u v assume "(u, v) \<in> set (zip s t)"
  then have "length u = length v"
    using assms
    by (metis has_shape2_def set_zip_leftD set_zip_rightD)
  then show "broadcast2 f u v = Inr (map2 f u v)" by (rule broadcast2_same)
qed

lemma ewise3_same:
  assumes "has_shape3 a b n d" "has_shape3 c b n d"
  shows "zipE (zipE (broadcast2 f)) a c = Inr (map2 (map2 (map2 f)) a c)"
proof (rule zipE_Inr)
  show "length a = length c" using assms by (simp add: has_shape3_def)
next
  fix s t assume st: "(s, t) \<in> set (zip a c)"
  then have "has_shape2 s n d" "has_shape2 t n d"
    using assms by (auto simp: has_shape3_def dest: set_zip_leftD set_zip_rightD)
  then show "zipE (broadcast2 f) s t = Inr (map2 (map2 f) s t)" by (rule ewise2_same)
qed

lemma in_zipD: "(x, y) \<in> set (zip xs ys) \<Longrightarrow> x \<in> set xs \<and> y \<in> set ys"
  by (auto dest: set_zip_leftD set_zip_rightD)

lemma has_shape2_map2:
  assumes "has_shape2 s n d" "has_shape2 t n d"
  shows "has_shape2 (map2 (map2 f) s t) n d"
  using assms unfolding has_shape2_def
  by (auto dest!: in_zipD)

lemma has_shape3_map2:
  assumes "has_shape3 a b n d" "has_shape3 c b n d"
  shows "has_shape3 (map2 (map2 (map2 f)) a c) b n d"
  using assms unfolding has_shape3_def
  by (auto dest!: in_zipD intro: has_shape2_map2)

lemma has_shape3_map3: "has_shape3 a b n d \<Longrightarrow> has_shape3 (map (map (map f)) a) b n d"
  by (auto simp: has_shape3_def has_shape2_def)

lemma guide_Logits:
  assumes "has_shape3 nt b k d" "has_shape3 lt b k d"
  shows "guide (Logits nt) (Logits lt) cs
          = Inr (Logits (map2 (map2 (map2 (\<lambda>n l. n + (l - n) * cs))) nt lt))"
proof -
  let ?d = "map2 (map2 (map2 (-))) lt nt"
  have 1: "sub3 lt nt = Inr ?d"
    unfolding sub3_def using assms(2,1) by (rule ewise3_same)
  have 2: "has_shape3 (map (map (map (\<lambda>a. a * cs))) ?d) b k d"
    using assms by (intro has_shape3_map3 has_shape3_map2)
  have 3: "add3 nt (map (map (map (\<lambda>a. a * cs))) ?d)
            = Inr (map2 (map2 (map2 (+))) nt (map (map (map (\<lambda>a. a * cs))) ?d))"
    unfolding add3_def using assms(1) 2 by (rule ewise3_same)
  have 4: "map2 (map2 (map2 (+))) nt (map (map (map (\<lambda>a. a * cs))) ?d)
            = map2 (map2 (map2 (\<lambda>n l. n + (l - n) * cs))) nt lt"
    using assms
  proof -
    have "length nt = length lt" using assms by (simp add: has_shape3_def)
    then show ?thesis using assms
    proof (induction nt lt arbitrary: b rule: list_induct2)
      case Nil then show ?case by simp
    next
      case (Cons s ss t ts)
      have st: "has_shape2 s k d" "has_shape2 t k d" using Cons.prems by (auto simp: has_shape3_def)
      have "length s = length t" using st by (simp add: has_shape2_def)
      then have hd: "map2 (map2 (+)) s (map (map (\<lambda>a. a * cs)) (map2 (map2 (-)) t s))
                 = map2 (map2 (\<lambda>n l. n + (l - n) * cs)) s t"
        using st
      proof (induction s t arbitrary: k rule: list_induct2)
        case Nil then show ?case by simp
      next
        case (Cons u us v vs)
        have "length u = length v" using Cons.prems by (auto simp: has_shape2_def)
        then have "map2 (+) u (map (\<lambda>a. a * cs) (map2 (-) v u)) = map2 (\<lambda>n l. n + (l - n) * cs) u v"
          by (induction u v rule: list_induct2) auto
        moreover have "has_shape2 us (length us) d" "has_shape2 vs (length us) d"
          using Cons.prems Cons.hyps by (auto simp: has_shape2_def)
        ultimately show ?case using Cons.IH by simp
      qed
      have "has_shape3 ss (length ss) k d" "has_shape3 ts (length ss) k d"
        using Cons.prems Cons.hyps by (auto simp: has_shape3_def)
      then show ?case using Cons.IH hd by simp
    qed
  qed
  show ?thesis unfolding guide_def by (simp only: 1 3 4 bindE_Inr prod.case returned.case)
qed

lemma mapE_ex:
  assumes "\<And>x. x \<in> set xs \<Longrightarrow> \<exists>y. f x = Inr y \<and> P y"
  shows "\<exists>ys. mapE f xs = Inr ys \<and> length ys = length xs \<and> (\<forall>y \<in> set ys. P y)"
  using assms
proof (induction xs)
  case Nil
  then show ?case by simp
next
  case (Cons x xs)
  from Cons.prems obtain y where y: "f x = Inr y" "P y" by auto
  from Cons obtain ys where ys: "mapE f xs = Inr ys" "length ys = length xs" "\<forall>y \<in> set ys. P y"
    by auto
  show ?case using y ys by simp
qed

lemma zipE_ex:
  assumes "length xs = length ys"
    and "\<And>x y. (x, y) \<in> set (zip xs ys) \<Longrightarrow> \<exists>z. f x y = Inr z \<and> P z"
  shows "\<exists>zs. zipE f xs ys = Inr zs \<and> length zs = length xs \<and> (\<forall>z \<in> set zs. P z)"
proof -
  have "\<exists>zs. mapE (\<lambda>(x, y). f x y) (zip xs ys) = Inr zs \<and> length zs = length (zip xs ys)
          \<and> (\<forall>z \<in> set zs. P z)"
    by (rule mapE_ex) (use assms(2) in auto)
  then show ?thesis using assms(1) by (simp add: zipE_def)
qed

lemma has_shape2I: "length x = n \<Longrightarrow> (\<And>v. v \<in> set x \<Longrightarrow> length v = d) \<Longrightarrow> has_shape2 x n d"
  by (simp add: has_shape2_def)

lemma has_shape3I:
  "length x = b \<Longrightarrow> (\<And>s. s \<in> set x \<Longrightarrow> has_shape2 s n d) \<Longrightarrow> has_shape3 x b n d"
  by (simp add: has_shape3_def)

lemma rows_ex:
  assumes "has_shape2 x n d"
    and "\<And>v. length v = d \<Longrightarrow> \<exists>w. f v = Inr w \<and> length w = e"
  shows "\<exists>y. mapE f x = Inr y \<and> has_shape2 y n e"
proof -
  have "\<exists>ys. mapE f x = Inr ys \<and> length ys = length x \<and> (\<forall>y \<in> set ys. length y = e)"
    by (rule mapE_ex) (use assms in \<open>auto simp: has_shape2_def\<close>)
  then show ?thesis using assms(1) by (auto simp: has_shape2_def)
qed

lemma seqs_ex:
  assumes "has_shape3 x b n d"
    and "\<And>s. has_shape2 s n d \<Longrightarrow> \<exists>t. f s = Inr t \<and> has_shape2 t k e"
  shows "\<exists>y. mapE f x = Inr y \<and> has_shape3 y b k e"
proof -
  have "\<exists>ys. mapE f x = Inr ys \<and> length ys = length x \<and> (\<forall>y \<in> set ys. has_shape2 y k e)"
    by (rule mapE_ex) (use assms in \<open>auto simp: has_shape3_def\<close>)
  then show ?thesis using assms(1) by (auto simp: has_shape3_def)
qed

lemma vecs3_ex:
  assumes "has_shape3 x b n d"
    and "\<And>v. length v = d \<Longrightarrow> \<exists>w. f v = Inr w \<and> length w = e"
  shows "\<exists>y. mapE (mapE f) x = Inr y \<and> has_shape3 y b n e"
  using assms(1)
proof (rule seqs_ex)
  fix s :: "'a list list" assume "has_shape2 s n d"
  then show "\<exists>t. mapE f s = Inr t \<and> has_shape2 t n e" using assms(2) by (rule rows_ex)
qed

lemma add3_shape:
  assumes "has_shape3 a b n d" "has_shape3 c b n d"
  shows "\<exists>y. add3 a c = Inr y \<and> has_shape3 y b n d"
  using ewise3_same [OF assms, of "(+)"] has_shape3_map2 [OF assms, of "(+)"]
  by (simp add: add3_def)

lemma Linear_shape:
  assumes "wf_linear l i k" "length v = i"
  shows "\<exists>w. Linear_forward l v = Inr w \<and> length w = k"
  using assms
  by (auto simp: Linear_forward_def wf_linear_def has_shape2_def split: option.splits)

lemma RMSNorm_shape:
  assumes "length (rms_gamma m) = d" "length v = d"
  shows "\<exists>w. RMSNorm_forward m v = Inr w \<and> length w = d"
  using assms by (simp add: RMSNorm_forward_def normalize_def broadcast2_def)

lemma FeedForward_vec_shape:
  assumes "wf_feedforward f d" "length v = d"
  shows "\<exists>w. FeedForward_vec f v = Inr w \<and> length w = d"
proof -
  let ?k = "length (lin_weight (ff_in f))"
  from assms obtain a where a: "RMSNorm_forward (ff_norm f) v = Inr a" "length a = d"
    using RMSNorm_shape [of "ff_norm f" d v] by (auto simp: wf_feedforward_def)
  from assms a obtain c where c: "Linear_forward (ff_in f) a = Inr c" "length c = ?k"
    using Linear_shape [of "ff_in f" d ?k a] by (auto simp: wf_feedforward_def)
  from assms c obtain e where e: "Linear_forward (ff_out f) (map gelu c) = Inr e" "length e = d"
    using Linear_shape [of "ff_out f" ?k d "map gelu c"] by (auto simp: wf_feedforward_def)
  show ?thesis using a c e by (simp add: FeedForward_vec_def)
qed

lemma FeedForward_shape:
  assumes "wf_feedforward f d" "has_shape3 x b n d"
  shows "\<exists>y. FeedForward_forward f x = Inr y \<and> has_shape3 y b n d"
  unfolding FeedForward_forward_def
  using assms(2) FeedForward_vec_shape [OF assms(1)] by (rule vecs3_ex)

lemma upt_3: "[0 ..< 3] = [0, 1, 2]"
  by (simp add: upt_rec)

lemma upt_2: "[0 ..< 2] = [0, 1]"
  by (simp add: upt_rec)

lemma chunk_3:
  assumes "length r = 3 * n" "0 < n"
  shows "chunk 3 r = [take n r, take n (drop n r), take n (drop (2 * n) r)]"
proof -
  have s: "(length r + 3 - 1) div 3 = n" using assms by simp
  have c: "(length r + n - 1) div n = 3"
    using assms by (intro div_nat_eqI) auto
  show ?thesis
    unfolding chunk_def Let_def s c using assms by (simp add: upt_3 mult.commute)
qed

lemma chunk_2:
  assumes "length r = 2 * n" "0 < n"
  shows "chunk 2 r = [take n r, drop n r]"
proof -
  have s: "(length r + 2 - 1) div 2 = n" using assms by simp
  have c: "(length r + n - 1) div n = 2"
    using assms by (intro div_nat_eqI) auto
  show ?thesis
    unfolding chunk_def Let_def s c using assms by (simp add: upt_2)
qed

lemma rotate_half_even:
  assumes "length t = 2 * n" "0 < n"
  shows "rotate_half t = Inr (map uminus (drop n t) @ take n t)"
  by (simp add: rotate_half_def chunk_2 [OF assms])

lemma apply_rotary_pos_emb_even:
  assumes "length t = 2 * n" "length pos = 2 * n" "0 < n"
  shows "apply_rotary_pos_emb pos t
          = Inr (map2 (+) (map2 (*) t (map cos pos))
                   (map2 (*) (map uminus (drop n t) @ take n t) (map sin pos)))"
  using assms
  by (simp add: apply_rotary_pos_emb_def rotate_half_even [OF assms(1,3)] broadcast2_def)

lemma apply_rotary_pos_emb_shape:
  assumes "length t = 2 * n" "length pos = 2 * n" "0 < n"
  shows "\<exists>w. apply_rotary_pos_emb pos t = Inr w \<and> length w = 2 * n"
  using assms by (simp add: apply_rotary_pos_emb_even [OF assms])

lemma RotaryEmbedding_forward_shape:
  "has_shape2 (RotaryEmbedding_forward inv_freq n) n (2 * length inv_freq)"
  by (auto simp: RotaryEmbedding_forward_def has_shape2_def Let_def)

lemma chunk_qkv_shape:
  assumes "has_shape2 t n (3 * k)" "0 < k"
  shows "\<exists>q kk v. chunk_qkv t = Inr (q, kk, v)
           \<and> has_shape2 q n k \<and> has_shape2 kk n k \<and> has_shape2 v n k"
proof -
  let ?f = "\<lambda>r. case chunk 3 r of [q, k, v] \<Rightarrow> Inr (q, k, v) | _ \<Rightarrow> Inl ValueError"
  let ?P = "\<lambda>(q, kk, v). length q = k \<and> length kk = k \<and> length (v :: real list) = k"
  have "\<exists>ps. mapE ?f t = Inr ps \<and> length ps = length t \<and> (\<forall>p \<in> set ps. ?P p)"
  proof (rule mapE_ex)
    fix r assume "r \<in> set t"
    then have "length r = 3 * k" using assms(1) by (simp add: has_shape2_def)
    then show "\<exists>y. ?f r = Inr y \<and> ?P y"
      using assms(2) by (simp add: chunk_3)
  qed
  then obtain ps where ps: "mapE ?f t = Inr ps" "length ps = length t" "\<forall>p \<in> set ps. ?P p"
    by blast
  have "chunk_qkv t = Inr (map fst ps, map (fst \<circ> snd) ps, map (snd \<circ> snd) ps)"
    by (simp add: chunk_qkv_def ps(1))
  moreover have "has_shape2 (map fst ps) n k" "has_shape2 (map (fst \<circ> snd) ps) n k"
    "has_shape2 (map (snd \<circ> snd) ps) n k"
    using ps(2,3) assms(1) by (auto simp: has_shape2_def)
  ultimately show ?thesis by blast
qed

lemma split_heads_shape:
  assumes "has_shape2 t n (d * h)"
  shows "\<exists>y. split_heads h t = Inr y \<and> has_shape3 y h n d"
proof -
  have "\<not> (\<exists>r \<in> set t. length r mod h \<noteq> 0)" using assms by (auto simp: has_shape2_def)
  then have "split_heads h t
      = Inr (map (\<lambda>i. map (\<lambda>r. let d = length r div h in take d (drop (i * d) r)) t) [0 ..< h])"
    by (simp add: split_heads_def)
  moreover have "has_shape3
      (map (\<lambda>i. map (\<lambda>r. let d = length r div h in take d (drop (i * d) r)) t) [0 ..< h]) h n d"
  proof (rule has_shape3I)
    fix s assume "s \<in> set (map (\<lambda>i. map (\<lambda>r. let d = length r div h in take d (drop (i * d) r)) t) [0 ..< h])"
    then obtain i where i: "i < h"
      and s: "s = map (\<lambda>r. let d = length r div h in take d (drop (i * d) r)) t" by auto
    show "has_shape2 s n d"
    proof (rule has_shape2I)
      show "length s = n" using s assms by (simp add: has_shape2_def)
    next
      fix v assume "v \<in> set s"
      then obtain r where r: "r \<in> set t" "v = take (length r div h) (drop (i * (length r div h)) r)"
        using s by (auto simp: Let_def)
      have lr: "length r = d * h" using r(1) assms by (simp add: has_shape2_def)
      have hd: "length r div h = d" using lr i by simp
      have "i * d + d \<le> d * h"
      proof -
        have "Suc i \<le> h" using i by simp
        then have "Suc i * d \<le> h * d" by (rule mult_le_mono1)
        then show ?thesis by (simp add: mult.commute)
      qed
      then show "length v = d" using r(2) lr hd by simp
    qed
  qed simp
  ultimately show ?thesis by simp
qed

lemma rotary_call_shape:
  assumes "has_shape3 t h n (2 * k)" "has_shape2 rotary n (2 * k)" "0 < k"
  shows "\<exists>y. rotary_call t rotary = Inr y \<and> has_shape3 y h n (2 * k)"
  unfolding rotary_call_def using assms(1)
proof (rule seqs_ex)
  fix th :: mat assume th: "has_shape2 th n (2 * k)"
  have "\<exists>zs. zipE apply_rotary_pos_emb th rotary = Inr zs \<and> length zs = length th
          \<and> (\<forall>z \<in> set zs. length z = 2 * k)"
  proof (rule zipE_ex)
    show "length th = length rotary" using th assms(2) by (simp add: has_shape2_def)
  next
    fix p r assume "(p, r) \<in> set (zip th rotary)"
    then have "length p = 2 * k" "length r = 2 * k"
      using th assms(2) by (auto simp: has_shape2_def dest!: in_zipD)
    then show "\<exists>z. apply_rotary_pos_emb p r = Inr z \<and> length z = 2 * k"
      using assms(3) by (intro apply_rotary_pos_emb_shape)
  qed
  then show "\<exists>y. zipE apply_rotary_pos_emb th rotary = Inr y \<and> has_shape2 y n (2 * k)"
    using th by (auto simp: has_shape2_def)
qed

lemma width_shape: "has_shape2 v n d \<Longrightarrow> 0 < n \<Longrightarrow> width v = d"
  by (cases v) (auto simp: width_def has_shape2_def)

lemma seq_len_shape: "has_shape3 x b n d \<Longrightarrow> 0 < b \<Longrightarrow> seq_len x = n"
  by (cases x) (auto simp: seq_len_def has_shape3_def has_shape2_def)

lemma attend_head_shape:
  assumes "has_shape2 q n d" "has_shape2 v n e"
  shows "has_shape2 (attend_head q k v) n e"
proof (cases "n = 0")
  case True
  then show ?thesis using assms by (simp add: attend_head_def has_shape2_def)
next
  case False
  then have "width v = e" using assms(2) by (simp add: width_shape)
  then show ?thesis using assms(1) by (auto simp: attend_head_def has_shape2_def Let_def)
qed

lemma attend_shape:
  assumes "has_shape3 q h n d" "has_shape3 k h n d" "has_shape3 v h n e"
  shows "has_shape3 (attend q k v) h n e"
proof (rule has_shape3I)
  show "length (attend q k v) = h" using assms by (simp add: attend_def has_shape3_def)
next
  fix s assume "s \<in> set (attend q k v)"
  then obtain qh kh vh where "(qh, kh, vh) \<in> set (zip q (zip k v))" "s = attend_head qh kh vh"
    by (auto simp: attend_def)
  then have "qh \<in> set q" "vh \<in> set v" "s = attend_head qh kh vh"
    by (auto dest!: in_zipD)
  then show "has_shape2 s n e"
    using assms by (auto simp: has_shape3_def intro: attend_head_shape)
qed

lemma length_concat_const:
  "(\<And>x. x \<in> set xs \<Longrightarrow> length x = d) \<Longrightarrow> length (concat xs) = d * length xs"
  by (induction xs) auto

lemma merge_heads_shape:
  assumes "has_shape3 out h n d" "0 < h"
  shows "has_shape2 (merge_heads out) n (d * h)"
proof (rule has_shape2I)
  show "length (merge_heads out) = n"
    using assms by (simp add: merge_heads_def seq_len_shape)
next
  fix v assume "v \<in> set (merge_heads out)"
  then obtain t where t: "t < n" "v = concat (map (\<lambda>hd'. hd' ! t) out)"
    using assms by (auto simp: merge_heads_def seq_len_shape)
  have "length (concat (map (\<lambda>hd'. hd' ! t) out)) = d * length (map (\<lambda>hd'. hd' ! t) out)"
  proof (rule length_concat_const)
    fix x assume "x \<in> set (map (\<lambda>hd'. hd' ! t) out)"
    then obtain s where "s \<in> set out" "x = s ! t" by auto
    then show "length x = d" using assms(1) t(1) by (auto simp: has_shape3_def has_shape2_def)
  qed
  then show "length v = d * h" using t(2) assms(1) by (simp add: has_shape3_def)
qed

lemma Attention_seq_shape:
  assumes wf: "wf_attention a d (2 * k)" and k: "0 < k"
    and rot: "has_shape2 rotary n (2 * k)" and x: "has_shape2 x n d"
  shows "\<exists>y. Attention_seq a rotary x = Inr y \<and> has_shape2 y n d"
proof -
  let ?h = "at_heads a"
  let ?inner = "2 * k * ?h"
  from wf have h: "0 < ?h" and g: "length (rms_gamma (at_norm a)) = d"
    and qkv: "wf_linear (to_qkv a) d (?inner * 3)" and out: "wf_linear (to_out a) ?inner d"
    by (simp_all add: wf_attention_def)
  obtain x1 where x1: "mapE (RMSNorm_forward (at_norm a)) x = Inr x1" "has_shape2 x1 n d"
    using rows_ex [OF x, of "RMSNorm_forward (at_norm a)" d] RMSNorm_shape [OF g] by blast
  obtain x2 where x2: "mapE (Linear_forward (to_qkv a)) x1 = Inr x2" "has_shape2 x2 n (3 * ?inner)"
    using rows_ex [OF x1(2), of "Linear_forward (to_qkv a)" "3 * ?inner"] Linear_shape [OF qkv]
    by (auto simp: mult.commute)
  have inner: "0 < ?inner" using h k by simp
  obtain q kk v where c: "chunk_qkv x2 = Inr (q, kk, v)"
    "has_shape2 q n (2 * k * ?h)" "has_shape2 kk n (2 * k * ?h)" "has_shape2 v n (2 * k * ?h)"
    using chunk_qkv_shape [OF x2(2) inner] by blast
  obtain q1 where q1: "split_heads ?h q = Inr q1" "has_shape3 q1 ?h n (2 * k)"
    using split_heads_shape [OF c(2)] by blast
  obtain k1 where k1: "split_heads ?h kk = Inr k1" "has_shape3 k1 ?h n (2 * k)"
    using split_heads_shape [OF c(3)] by blast
  obtain v1 where v1: "split_heads ?h v = Inr v1" "has_shape3 v1 ?h n (2 * k)"
    using split_heads_shape [OF c(4)] by blast
  obtain q2 where q2: "rotary_call q1 rotary = Inr q2" "has_shape3 q2 ?h n (2 * k)"
    using rotary_call_shape [OF q1(2) rot k] by blast
  obtain k2 where k2: "rotary_call k1 rotary = Inr k2" "has_shape3 k2 ?h n (2 * k)"
    using rotary_call_shape [OF k1(2) rot k] by blast
  have m: "has_shape2 (merge_heads (attend q2 k2 v1)) n ?inner"
    using merge_heads_shape [OF attend_shape [OF q2(2) k2(2) v1(2)] h] .
  obtain y where y: "mapE (Linear_forward (to_out a)) (merge_heads (attend q2 k2 v1)) = Inr y"
    "has_shape2 y n d"
    using rows_ex [OF m, of "Linear_forward (to_out a)" d] Linear_shape [OF out] by blast
  show ?thesis
    by (simp add: Attention_seq_def x1(1) x2(1) c(1) q1(1) k1(1) v1(1) q2(1) k2(1) y)
qed

lemma Attention_forward_shape:
  assumes "wf_attention a d (2 * k)" "0 < k" "has_shape2 rotary n (2 * k)" "has_shape3 x b n d"
  shows "\<exists>y. Attention_forward a x rotary = Inr y \<and> has_shape3 y b n d"
  unfolding Attention_forward_def
  using assms(4) Attention_seq_shape [OF assms(1-3)] by (rule seqs_ex)

lemma residual_steps_shape:
  assumes "wf_layer l d (2 * k)" "0 < k" "has_shape2 rotary n (2 * k)" "has_shape3 x b n d"
  shows "\<exists>y. residual_steps rotary l x = Inr y \<and> has_shape3 y b n d"
proof -
  from assms(1) have a: "wf_attention (attn l) d (2 * k)" and f: "wf_feedforward (ff l) d"
    by (simp_all add: wf_layer_def)
  obtain y1 where y1: "Attention_forward (attn l) x rotary = Inr y1" "has_shape3 y1 b n d"
    using Attention_forward_shape [OF a assms(2-4)] by blast
  obtain y2 where y2: "add3 y1 x = Inr y2" "has_shape3 y2 b n d"
    using add3_shape [OF y1(2) assms(4)] by blast
  obtain y3 where y3: "FeedForward_forward (ff l) y2 = Inr y3" "has_shape3 y3 b n d"
    using FeedForward_shape [OF f y2(2)] by blast
  obtain y4 where y4: "add3 y3 y2 = Inr y4" "has_shape3 y4 b n d"
    using add3_shape [OF y3(2) y2(2)] by blast
  show ?thesis by (simp add: residual_steps_def y1(1) y2(1) y3(1) y4)
qed

lemma cat_last_shape:
  assumes "has_shape3 a b n d" "has_shape3 c b n e"
  shows "\<exists>y. cat_last a c = Inr y \<and> has_shape3 y b n (d + e)"
proof -
  have len: "length a = length c" using assms by (simp add: has_shape3_def)
  have rows: "\<forall>(s, t) \<in> set (zip a c). length s = length t"
    using assms by (auto simp: has_shape3_def has_shape2_def dest!: in_zipD)
  have "has_shape3 (map2 (map2 (@)) a c) b n (d + e)"
    using assms unfolding has_shape3_def has_shape2_def
    by (auto dest!: in_zipD)
  then show ?thesis using len rows by (simp add: cat_last_def)
qed

lemma skip_step_shape:
  assumes wf: "wf_layer l d dh" and x: "has_shape3 x b n d"
    and st: "\<forall>s \<in> set st. has_shape3 s b n d"
    and ok: "skip_combiner l \<noteq> None \<longrightarrow> st \<noteq> []"
  shows "\<exists>y st'. skip_step l x st = Inr (y, st') \<and> has_shape3 y b n d
           \<and> (\<forall>s \<in> set st'. has_shape3 s b n d)
           \<and> length st' = (if skip_combiner l = None then Suc (length st) else length st - 1)"
proof (cases "skip_combiner l")
  case None
  then show ?thesis using x st by (simp add: skip_step_def)
next
  case (Some c)
  then have ne: "st \<noteq> []" using ok by simp
  then have l: "has_shape3 (last st) b n d" using st by simp
  from wf Some have c: "wf_linear c (d * 2) d" by (simp add: wf_layer_def)
  obtain y1 where y1: "cat_last x (last st) = Inr y1" "has_shape3 y1 b n (d * 2)"
    using cat_last_shape [OF x l] by (auto simp: mult_2_right)
  obtain y2 where y2: "mapE (mapE (Linear_forward c)) y1 = Inr y2" "has_shape3 y2 b n d"
    using vecs3_ex [OF y1(2), of "Linear_forward c" d] Linear_shape [OF c] by blast
  have "\<forall>s \<in> set (butlast st). has_shape3 s b n d" using st by (auto dest: in_set_butlastD)
  then show ?thesis using Some ne y1 y2 by (simp add: skip_step_def)
qed

lemma Transformer_loop_shape:
  assumes "\<forall>l \<in> set ls. wf_layer l d (2 * k)" "0 < k" "has_shape2 rotary n (2 * k)"
    and "has_shape3 x b n d" "\<forall>s \<in> set st. has_shape3 s b n d" "pops_ok ls (length st)"
  shows "\<exists>y. Transformer_loop rotary ls x st = Inr y \<and> has_shape3 y b n d"
  using assms
proof (induction ls arbitrary: x st)
  case Nil
  then show ?case by simp
next
  case (Cons l ls)
  have wf: "wf_layer l d (2 * k)" using Cons.prems(1) by simp
  have ok: "skip_combiner l \<noteq> None \<longrightarrow> st \<noteq> []"
    using Cons.prems(6) by (auto split: option.splits)
  obtain y st' where s: "skip_step l x st = Inr (y, st')" "has_shape3 y b n d"
    "\<forall>s \<in> set st'. has_shape3 s b n d"
    "length st' = (if skip_combiner l = None then Suc (length st) else length st - 1)"
    using skip_step_shape [OF wf Cons.prems(4,5) ok] by blast
  obtain z where z: "residual_steps rotary l y = Inr z" "has_shape3 z b n d"
    using residual_steps_shape [OF wf Cons.prems(2,3) s(2)] by blast
  have "pops_ok ls (length st')"
    using Cons.prems(6) s(4) by (auto split: option.splits)
  then have "\<exists>y. Transformer_loop rotary ls z st' = Inr y \<and> has_shape3 y b n d"
    using Cons.IH [of z st'] Cons.prems(1,2,3) z(2) s(3) by simp
  then show ?case by (simp add: s(1) z(1))
qed

lemma pops_ok_first:
  "\<forall>l \<in> set fs. skip_combiner l = None \<Longrightarrow> pops_ok (fs @ ss) s = pops_ok ss (s + length fs)"
  by (induction fs arbitrary: s) auto

lemma pops_ok_second:
  "\<forall>l \<in> set ss. skip_combiner l \<noteq> None \<Longrightarrow> pops_ok ss s \<longleftrightarrow> length ss \<le> s"
  by (induction ss arbitrary: s) (auto split: option.splits)

lemma wf_transformer_halves:
  assumes "wf_transformer t d"
  defines "m \<equiv> length (layers t) div 2"
  shows "layers t = take m (layers t) @ drop m (layers t)"
    and "\<forall>l \<in> set (take m (layers t)). skip_combiner l = None"
    and "\<forall>l \<in> set (drop m (layers t)). skip_combiner l \<noteq> None"
    and "length (take m (layers t)) = m" and "length (drop m (layers t)) = m"
proof -
  from assms have ev: "even (length (layers t))"
    and sk: "\<forall>i < length (layers t). skip_combiner (layers t ! i) \<noteq> None \<longleftrightarrow> m \<le> i"
    by (simp_all add: wf_transformer_def)
  show "layers t = take m (layers t) @ drop m (layers t)" by simp
  show "length (take m (layers t)) = m" unfolding m_def by simp
  show "length (drop m (layers t)) = m" using ev unfolding m_def by (auto elim!: evenE)
  show "\<forall>l \<in> set (take m (layers t)). skip_combiner l = None"
  proof
    fix l assume "l \<in> set (take m (layers t))"
    then obtain i where "i < length (take m (layers t))" "take m (layers t) ! i = l"
      by (auto simp: in_set_conv_nth)
    then have "i < m" "i < length (layers t)" "layers t ! i = l" by auto
    then show "skip_combiner l = None" using sk by auto
  qed
  show "\<forall>l \<in> set (drop m (layers t)). skip_combiner l \<noteq> None"
  proof
    fix l assume "l \<in> set (drop m (layers t))"
    then obtain i where "i < length (drop m (layers t))" "drop m (layers t) ! i = l"
      by (auto simp: in_set_conv_nth)
    then have "m + i < length (layers t)" "layers t ! (m + i) = l" by auto
    then show "skip_combiner l \<noteq> None" using sk by auto
  qed
qed

lemma wf_transformer_pops_ok:
  assumes "wf_transformer t d"
  shows "pops_ok (layers t) 0"
proof -
  let ?m = "length (layers t) div 2"
  note h = wf_transformer_halves [OF assms]
  have "pops_ok (take ?m (layers t) @ drop ?m (layers t)) 0"
    unfolding pops_ok_first [OF h(2)] pops_ok_second [OF h(3)] using h(4,5) by simp
  then show ?thesis by simp
qed

lemma Transformer_forward_shape:
  assumes "wf_transformer t d" "has_shape3 x b n d"
  shows "\<exists>y. Transformer_forward t x = Inr y \<and> has_shape3 y b n d"
proof (cases "b = 0")
  case True
  then have x: "x = []" using assms(2) by (simp add: has_shape3_def)
  let ?k = "length (rotary_emb t)"
  have "\<exists>y. Transformer_loop (RotaryEmbedding_forward (rotary_emb t) 0) (layers t) [] [] = Inr y
          \<and> has_shape3 y 0 0 d"
    by (rule Transformer_loop_shape [where k = ?k])
      (use assms(1) wf_transformer_pops_ok [OF assms(1)] in
        \<open>auto simp: wf_transformer_def RotaryEmbedding_forward_shape has_shape3_def\<close>)
  then show ?thesis using True x by (auto simp: Transformer_forward_def seq_len_def has_shape3_def)
next
  case False
  let ?k = "length (rotary_emb t)"
  have n: "seq_len x = n" using assms(2) False by (simp add: seq_len_shape)
  have "\<exists>y. Transformer_loop (RotaryEmbedding_forward (rotary_emb t) n) (layers t) x [] = Inr y
          \<and> has_shape3 y b n d"
    by (rule Transformer_loop_shape [where k = ?k])
      (use assms wf_transformer_pops_ok [OF assms(1)] in
        \<open>auto simp: wf_transformer_def RotaryEmbedding_forward_shape\<close>)
  then show ?thesis by (simp add: Transformer_forward_def n)
qed

lemma transpose_shape:
  assumes "has_shape2 s n d" "0 < n"
  shows "has_shape2 (transpose s) d n"
proof -
  have "transpose s = map (\<lambda>i. map (\<lambda>j. s ! j ! i) [0 ..< length s]) [0 ..< d]"
    by (rule transpose_rectangle) (use assms in \<open>auto simp: has_shape2_def\<close>)
  then show ?thesis using assms by (auto simp: has_shape2_def)
qed

lemma Conv1d_forward_shape:
  assumes "wf_conv cv d" "has_shape2 x d n" "0 < n" "0 < d"
  shows "\<exists>y. Conv1d_forward cv x = Inr y \<and> has_shape2 y d n"
proof -
  have w: "width x = n" using assms(2,4) by (rule width_shape)
  have l: "length x = cv_in cv" using assms(1,2) by (simp add: wf_conv_def has_shape2_def)
  have k: "cv_kernel cv = 2 * cv_padding cv + 1" "cv_out cv = d"
    using assms(1) by (simp_all add: wf_conv_def)
  have ok: "\<not> n + 2 * cv_padding cv < cv_kernel cv" using k assms(3) by simp
  have n: "n + 2 * cv_padding cv + 1 - cv_kernel cv = n" using k by simp
  show ?thesis
    unfolding Conv1d_forward_def Let_def w n using l ok
    by (simp add: has_shape2_def k(2))
qed

lemma ConvPositionEmbed_forward_shape:
  assumes "wf_conv cv d" "has_shape3 x b n d" "0 < n" "0 < d"
  shows "\<exists>y. ConvPositionEmbed_forward cv x = Inr y \<and> has_shape3 y b n d"
  unfolding ConvPositionEmbed_forward_def using assms(2)
proof (rule seqs_ex)
  fix s :: mat assume s: "has_shape2 s n d"
  obtain y where y: "Conv1d_forward cv (transpose s) = Inr y" "has_shape2 y d n"
    using Conv1d_forward_shape [OF assms(1) transpose_shape [OF s assms(3)] assms(3,4)] by blast
  have "has_shape2 (map (map gelu) y) d n" using y(2) by (auto simp: has_shape2_def)
  then have "has_shape2 (transpose (map (map gelu) y)) n d" using assms(4) by (rule transpose_shape)
  then show "\<exists>t. bindE (Conv1d_forward cv (transpose s)) (\<lambda>y. Inr (transpose (map (map gelu) y)))
                = Inr t \<and> has_shape2 t n d"
    by (simp add: y(1))
qed

lemma Embedding_shape:
  assumes "has_shape2 tbl (nat k + 1) e" "0 \<le> i" "i \<le> k"
  shows "\<exists>w. Embedding_forward tbl i = Inr w \<and> length w = e"
proof -
  have "nat i < length tbl" using assms by (simp add: has_shape2_def)
  then show ?thesis using assms by (auto simp: Embedding_forward_def has_shape2_def)
qed

lemma ids_shape:
  assumes "has_shape2 tbl (nat k + 1) e" "has_shape2 ids b n"
    "\<forall>r \<in> set ids. \<forall>i \<in> set r. 0 \<le> i \<and> i \<le> k"
  shows "\<exists>y. mapE (mapE (Embedding_forward tbl)) ids = Inr y \<and> has_shape3 y b n e"
proof -
  have "\<exists>ys. mapE (mapE (Embedding_forward tbl)) ids = Inr ys \<and> length ys = length ids
          \<and> (\<forall>y \<in> set ys. has_shape2 y n e)"
  proof (rule mapE_ex)
    fix r assume r: "r \<in> set ids"
    have "\<exists>ws. mapE (Embedding_forward tbl) r = Inr ws \<and> length ws = length r
            \<and> (\<forall>w \<in> set ws. length w = e)"
      by (rule mapE_ex) (use assms r in \<open>auto intro!: Embedding_shape\<close>)
    then show "\<exists>y. mapE (Embedding_forward tbl) r = Inr y \<and> has_shape2 y n e"
      using r assms(2) by (auto simp: has_shape2_def)
  qed
  then show ?thesis using assms(2) by (auto simp: has_shape3_def has_shape2_def)
qed

lemma embed_inputs_shape:
  assumes wf: "wf_predictor m d" and inp: "matching_inputs m b n d x ids cond" and n: "0 < n"
  shows "\<exists>y. embed_inputs m x ids cond = Inr y \<and> has_shape3 y b n d"
proof -
  let ?e = "width (to_phoneme_emb m)"
  from inp have x: "has_shape3 x b n d" and c: "has_shape3 cond b n d"
    and i: "has_shape2 ids b n" "\<forall>r \<in> set ids. \<forall>i \<in> set r. 0 \<le> i \<and> i \<le> null_phoneme_id m"
    by (simp_all add: matching_inputs_def)
  from wf have d: "0 < d" and tbl: "has_shape2 (to_phoneme_emb m) (nat (null_phoneme_id m) + 1) ?e"
    and lin: "wf_linear (to_embed m) (d * 2 + ?e) d" and cv: "wf_conv (conv_embed m) d"
    by (simp_all add: wf_predictor_def)
  obtain pe where pe: "mapE (mapE (Embedding_forward (to_phoneme_emb m))) ids = Inr pe"
    "has_shape3 pe b n ?e"
    using ids_shape [OF tbl i] by blast
  obtain e1 where e1: "cat_last x pe = Inr e1" "has_shape3 e1 b n (d + ?e)"
    using cat_last_shape [OF x pe(2)] by blast
  have w: "d + ?e + d = d * 2 + ?e" by simp
  obtain e2 where e2: "cat_last e1 cond = Inr e2" "has_shape3 e2 b n (d * 2 + ?e)"
    using cat_last_shape [OF e1(2) c] unfolding w by blast
  obtain y1 where y1: "mapE (mapE (Linear_forward (to_embed m))) e2 = Inr y1" "has_shape3 y1 b n d"
    using vecs3_ex [OF e2(2), of "Linear_forward (to_embed m)" d] Linear_shape [OF lin] by blast
  obtain y2 where y2: "ConvPositionEmbed_forward (conv_embed m) y1 = Inr y2" "has_shape3 y2 b n d"
    using ConvPositionEmbed_forward_shape [OF cv y1(2) n d] by blast
  obtain y3 where y3: "add3 y2 y1 = Inr y3" "has_shape3 y3 b n d"
    using add3_shape [OF y2(2) y1(2)] by blast
  show ?thesis by (simp add: embed_inputs_def pe(1) e1(1) e2(1) y1(1) y2(1) y3)
qed

lemma cond_drop_shape:
  assumes wf: "wf_predictor m d" and inp: "matching_inputs m b n d x ids cond"
  shows "\<exists>c i. cond_drop m p us cond ids = Inr (c, i) \<and> matching_inputs m b n d x i c"
proof (cases "p > 0")
  case False
  then show ?thesis using inp by (simp add: cond_drop_def)
next
  case True
  let ?mk = "prob_mask_like (length cond) p us"
  from inp have x: "has_shape3 x b n d" and c: "has_shape3 cond b n d"
    and i: "has_shape2 ids b n" "\<forall>r \<in> set ids. \<forall>i \<in> set r. 0 \<le> i \<and> i \<le> null_phoneme_id m"
    by (simp_all add: matching_inputs_def)
  from wf have nc: "length (null_cond m) = d" and ni: "0 \<le> null_phoneme_id m"
    by (simp_all add: wf_predictor_def)
  have lm: "length ?mk = b" using c by (simp add: prob_mask_like_def has_shape3_def)
  have "\<exists>zs. zipE (\<lambda>c s. mapE (broadcast2 (\<lambda>a b. if c then a else b) (null_cond m)) s) ?mk cond
            = Inr zs \<and> length zs = length ?mk \<and> (\<forall>z \<in> set zs. has_shape2 z n d)"
  proof (rule zipE_ex)
    show "length ?mk = length cond" using lm c by (simp add: has_shape3_def)
  next
    fix cc s assume "(cc, s) \<in> set (zip ?mk cond)"
    then have s: "has_shape2 s n d" using c by (auto simp: has_shape3_def dest!: in_zipD)
    show "\<exists>z. mapE (broadcast2 (\<lambda>a b. if cc then a else b) (null_cond m)) s = Inr z
            \<and> has_shape2 z n d"
      using s
    proof (rule rows_ex)
      fix v :: vec assume "length v = d"
      then show "\<exists>w. broadcast2 (\<lambda>a b. if cc then a else b) (null_cond m) v = Inr w \<and> length w = d"
        using nc by (simp add: broadcast2_def)
    qed
  qed
  then obtain c' where c': "zipE (\<lambda>c s. mapE (broadcast2 (\<lambda>a b. if c then a else b) (null_cond m)) s)
      ?mk cond = Inr c'" "has_shape3 c' b n d"
    using lm by (auto simp: has_shape3_def)
  let ?P = "\<lambda>r. length r = n \<and> (\<forall>i \<in> set r. 0 \<le> i \<and> i \<le> null_phoneme_id m)"
  have "\<exists>zs. zipE (\<lambda>c r. Inr (map (\<lambda>i. if c then null_phoneme_id m else i) r)) ?mk ids
            = Inr zs \<and> length zs = length ?mk \<and> (\<forall>z \<in> set zs. ?P z)"
  proof (rule zipE_ex)
    show "length ?mk = length ids" using lm i(1) by (simp add: has_shape2_def)
  next
    fix cc r assume "(cc, r) \<in> set (zip ?mk ids)"
    then have "r \<in> set ids" by (auto dest!: in_zipD)
    then have "?P r" using i by (auto simp: has_shape2_def)
    then show "\<exists>z. Inr (map (\<lambda>i. if cc then null_phoneme_id m else i) r) = Inr z \<and> ?P z"
      using ni by auto
  qed
  then obtain i' where i': "zipE (\<lambda>c r. Inr (map (\<lambda>i. if c then null_phoneme_id m else i) r)) ?mk ids
      = Inr i'" "has_shape2 i' b n" "\<forall>r \<in> set i'. \<forall>i \<in> set r. 0 \<le> i \<and> i \<le> null_phoneme_id m"
    using lm by (auto simp: has_shape2_def)
  show ?thesis
    using True x c' i' by (simp add: cond_drop_def Let_def matching_inputs_def)
qed

lemma last_dim_shape: "has_shape3 x b n d \<Longrightarrow> 0 < b \<Longrightarrow> 0 < n \<Longrightarrow> last_dim x = d"
  by (cases x; cases "hd x") (auto simp: last_dim_def has_shape3_def has_shape2_def)

lemma last_dim_match:
  assumes "has_shape3 x b n d" "has_shape3 c b n d" "0 < n"
  shows "last_dim c = last_dim x"
proof (cases "b = 0")
  case True
  then show ?thesis using assms by (simp add: has_shape3_def last_dim_def)
next
  case False
  then show ?thesis using assms by (simp add: last_dim_shape)
qed

lemma DurationPredictor_predict_shape:
  assumes wf: "wf_predictor m d" and inp: "matching_inputs m b n d x ids cond" and n: "0 < n"
  shows "\<exists>y. DurationPredictor_predict m x ids cond p us = Inr y \<and> has_shape3 y b n d"
proof -
  obtain c i where c: "cond_drop m p us cond ids = Inr (c, i)" "matching_inputs m b n d x i c"
    using cond_drop_shape [OF wf inp] by blast
  obtain e where e: "embed_inputs m x i c = Inr e" "has_shape3 e b n d"
    using embed_inputs_shape [OF wf c(2) n] by blast
  have "wf_transformer (transformer m) d" using wf by (simp add: wf_predictor_def)
  then obtain y where "Transformer_forward (transformer m) e = Inr y" "has_shape3 y b n d"
    using Transformer_forward_shape [OF _ e(2)] by blast
  then show ?thesis by (simp add: DurationPredictor_predict_def c(1) e(1))
qed

lemma sinu_shape:
  "has_shape2 (LearnedSinusoidalPosEmb_forward ws ts) (length ts) (2 * length ws)"
  by (auto simp: LearnedSinusoidalPosEmb_forward_def has_shape2_def Let_def)

lemma pack_shape:
  assumes "has_shape2 te b d" "has_shape3 x b n d" "0 < b" "0 < d"
  shows "pack te x = Inr (map2 (#) te x, [[], [seq_len x]])
         \<and> has_shape3 (map2 (#) te x) b (Suc n) d"
proof -
  have l: "length te = length x" using assms by (simp add: has_shape2_def has_shape3_def)
  have e: "te \<noteq> []" "x \<noteq> []" "[] \<notin> set te" "[] \<notin> set (concat x)"
    using assms by (auto simp: has_shape2_def has_shape3_def)
  have r: "\<not> (\<exists>(t, s) \<in> set (zip te x). \<exists>r \<in> set s. length r \<noteq> length t)"
    using assms by (auto simp: has_shape2_def has_shape3_def dest!: in_zipD)
  have "has_shape3 (map2 (#) te x) b (Suc n) d"
    using assms unfolding has_shape3_def has_shape2_def by (auto dest!: in_zipD)
  then show ?thesis using l r e by (simp add: pack_def)
qed

lemma unpack_shape:
  assumes "has_shape3 z b (Suc n) d" "b = 0 \<or> k = n"
  shows "unpack z [[], [k]] = Inr [map (take 1) z, map (\<lambda>s. take k (drop 1 s)) z]
         \<and> has_shape3 (map (\<lambda>s. take k (drop 1 s)) z) b n d"
proof -
  have ok: "\<not> (\<exists>s \<in> set z. length s \<noteq> sum_list (map prod_list [[], [k]]))"
    using assms by (auto simp: has_shape3_def has_shape2_def)
  have sh: "has_shape3 (map (\<lambda>s. take k (drop 1 s)) z) b n d"
    using assms by (auto simp: has_shape3_def has_shape2_def dest: in_set_takeD in_set_dropD)
  show ?thesis using ok sh by (simp add: unpack_def upt_2)
qed

lemma VoiceBox_predict_shape:
  assumes wf: "wf_voicebox m d" and inp: "matching_inputs m b n d x ids cond"
    and ts: "length ts = b" and n: "0 < n" and b: "0 < b"
  shows "\<exists>y. VoiceBox_predict m x ids cond ts p us = Inr y \<and> has_shape3 y b n d"
proof -
  from wf have wfp: "wf_predictor m d" and sw: "2 * length (sinu_pos_emb m) = d"
    by (simp_all add: wf_voicebox_def)
  from wfp have d: "0 < d" by (simp add: wf_predictor_def)
  obtain c i where c: "cond_drop m p us cond ids = Inr (c, i)" "matching_inputs m b n d x i c"
    using cond_drop_shape [OF wfp inp] by blast
  obtain e where e: "embed_inputs m x i c = Inr e" "has_shape3 e b n d"
    using embed_inputs_shape [OF wfp c(2) n] by blast
  let ?te = "LearnedSinusoidalPosEmb_forward (sinu_pos_emb m) ts"
  have te: "has_shape2 ?te b d" using sinu_shape [of "sinu_pos_emb m" ts] ts sw by simp
  note pk = pack_shape [OF te e(2) b d]
  have "wf_transformer (transformer m) d" using wfp by (simp add: wf_predictor_def)
  then obtain z where z: "Transformer_forward (transformer m) (map2 (#) ?te e) = Inr z"
    "has_shape3 z b (Suc n) d"
    using Transformer_forward_shape pk by blast
  have k: "b = 0 \<or> seq_len e = n" using seq_len_shape [OF e(2)] by blast
  note up = unpack_shape [OF z(2) k]
  show ?thesis
    using up by (simp add: VoiceBox_predict_def c(1) e(1) pk z(1))
qed

lemma Linear_init_wf: "wf_linear (Linear_init i k w b) i k"
  by (cases b) (auto simp: wf_linear_def Linear_init_def has_shape2_def)

lemma RotaryEmbedding_init_length: "length (RotaryEmbedding_init dh theta) = (dh + 1) div 2"
  by (simp add: RotaryEmbedding_init_def)

lemma Attention_init_wf:
  "0 < heads \<Longrightarrow> 0 < dh \<Longrightarrow> wf_attention (projr (Attention_init d dh heads wq wo)) d dh"
  by (simp add: wf_attention_def Attention_init_def Let_def RMSNorm_init_def Linear_init_wf)

lemma FeedForward_wf: "wf_feedforward (FeedForward d mult w1 b1 w2 b2) d"
proof -
  have "length (lin_weight (Linear_init d (d * mult) w1 (Some b1))) = d * mult"
    by (simp add: Linear_init_def)
  then show ?thesis
    by (simp add: wf_feedforward_def FeedForward_def RMSNorm_init_def Linear_init_wf)
qed

text \<open>
  The constructor in closed form: after the assertion it fails exactly when a layer is
  built with \<open>dim_head = 0\<close>.
\<close>

lemma Transformer_init_eq:
  "Transformer_init d depth dh heads ffm ini =
     (if \<not> divisible_by depth 2 then Inl AssertionError
      else if dh = 0 \<and> 0 < depth then Inl ZeroDivisionError
      else Inr \<lparr>layers =
                  map (\<lambda>ind. \<lparr>skip_combiner =
                         (if int ind + 1 > depth div 2
                          then Some (Linear_init (d * 2) d (skip_w (ini ind))
                                       (Some (skip_b (ini ind))))
                          else None),
                       attn = projr (Attention_init d dh heads (qkv_w (ini ind))
                                       (out_w (ini ind))),
                       ff = FeedForward d ffm (ff_in_w (ini ind)) (ff_in_b (ini ind))
                              (ff_out_w (ini ind)) (ff_out_b (ini ind))\<rparr>)
                    [0 ..< nat depth],
                rotary_emb = RotaryEmbedding_init dh 10000\<rparr>)"
proof (cases "dh = 0")
  case True
  show ?thesis
  proof (cases "0 < depth")
    case pos: True
    then have "[0 ..< nat depth] = 0 # [1 ..< nat depth]" by (simp add: upt_conv_Cons)
    then show ?thesis using True pos
      by (simp add: Transformer_init_def Attention_init_def)
  next
    case False
    then show ?thesis by (simp add: Transformer_init_def)
  qed
next
  case False
  let ?mk = "\<lambda>ind. \<lparr>skip_combiner =
                 (if int ind + 1 > depth div 2
                  then Some (Linear_init (d * 2) d (skip_w (ini ind)) (Some (skip_b (ini ind))))
                  else None),
               attn = projr (Attention_init d dh heads (qkv_w (ini ind)) (out_w (ini ind))),
               ff = FeedForward d ffm (ff_in_w (ini ind)) (ff_in_b (ini ind))
                      (ff_out_w (ini ind)) (ff_out_b (ini ind))\<rparr>"
  have "mapE (\<lambda>ind. let layer = int ind + 1; has_skip = layer > depth div 2
                 in bindE (Attention_init d dh heads (qkv_w (ini ind)) (out_w (ini ind)))
                      (\<lambda>a. Inr \<lparr>skip_combiner =
                                  (if has_skip
                                   then Some (Linear_init (d * 2) d (skip_w (ini ind))
                                                (Some (skip_b (ini ind))))
                                   else None),
                                attn = a,
                                ff = FeedForward d ffm (ff_in_w (ini ind))
                                       (ff_in_b (ini ind)) (ff_out_w (ini ind))
                                       (ff_out_b (ini ind))\<rparr>))
           [0 ..< nat depth] = Inr (map ?mk [0 ..< nat depth])"
    by (rule mapE_Inr) (simp add: Attention_init_def False Let_def)
  then show ?thesis using False by (simp add: Transformer_init_def)
qed

lemma Transformer_init_wf:
  assumes "Transformer_init d depth dh heads ffm ini = Inr t" "0 < heads" "even dh" "0 < dh"
  shows "wf_transformer t d"
proof -
  from assms(1) have ev: "even depth"
    by (auto simp: Transformer_init_eq divisible_by_def split: if_splits)
  let ?mk = "\<lambda>ind. \<lparr>skip_combiner =
                 (if int ind + 1 > depth div 2
                  then Some (Linear_init (d * 2) d (skip_w (ini ind)) (Some (skip_b (ini ind))))
                  else None),
               attn = projr (Attention_init d dh heads (qkv_w (ini ind)) (out_w (ini ind))),
               ff = FeedForward d ffm (ff_in_w (ini ind)) (ff_in_b (ini ind))
                      (ff_out_w (ini ind)) (ff_out_b (ini ind))\<rparr>"
  from assms(1) have t: "layers t = map ?mk [0 ..< nat depth]"
    "rotary_emb t = RotaryEmbedding_init dh 10000"
    by (auto simp: Transformer_init_eq split: if_splits)
  have r: "2 * length (rotary_emb t) = dh" "0 < length (rotary_emb t)"
    using assms(3,4) by (auto simp: t(2) RotaryEmbedding_init_length elim!: evenE)
  have wl: "\<forall>l \<in> set (layers t). wf_layer l d (2 * length (rotary_emb t))"
    unfolding r(1) t(1) using assms(2,4)
    by (auto simp: wf_layer_def Linear_init_wf Attention_init_wf FeedForward_wf)
  have el: "even (length (layers t))"
    using ev by (cases "0 \<le> depth") (simp_all add: t(1) even_nat_iff)
  have sk: "\<forall>i < length (layers t).
      skip_combiner (layers t ! i) \<noteq> None \<longleftrightarrow> length (layers t) div 2 \<le> i"
  proof (intro allI impI)
    fix i assume "i < length (layers t)"
    then have i: "i < nat depth" by (simp add: t(1))
    then have "skip_combiner (layers t ! i) \<noteq> None \<longleftrightarrow> int i + 1 > depth div 2"
      by (simp add: t(1))
    also have "\<dots> \<longleftrightarrow> nat depth div 2 \<le> i" using i ev by (auto elim!: evenE)
    finally show "skip_combiner (layers t ! i) \<noteq> None \<longleftrightarrow> length (layers t) div 2 \<le> i"
      by (simp add: t(1))
  qed
  show ?thesis unfolding wf_transformer_def using r(2) wl el sk by blast
qed

lemma ConvPositionEmbed_init_wf:
  assumes "ConvPositionEmbed_init d ks g w b = Inr cv"
  shows "wf_conv cv d"
proof -
  let ?g = "default_py g d"
  from assms have odd: "odd ks" and g: "?g \<noteq> 0" "d mod ?g = 0" and k: "0 \<le> ks"
    by (auto simp: ConvPositionEmbed_init_def is_odd_def divisible_by_def Let_def
        odd_iff_mod_2_eq_one split: if_splits)
  have cv: "cv = \<lparr>cv_in = d, cv_out = d, cv_kernel = nat ks, cv_groups = ?g,
       cv_padding = nat (ks div 2),
       cv_weight = map (\<lambda>c. map (\<lambda>i. map (w c i) [0 ..< nat ks]) [0 ..< d div ?g]) [0 ..< d],
       cv_bias = map b [0 ..< d]\<rparr>"
    using assms by (auto simp: ConvPositionEmbed_init_def Let_def split: if_splits)
  have "nat ks = 2 * nat (ks div 2) + 1" using odd k by (auto elim!: oddE)
  then show ?thesis using g by (auto simp: cv wf_conv_def has_shape2_def)
qed

lemma DurationPredictor_init_wf:
  assumes "DurationPredictor_init np pe d depth dh heads ffm ks g ini = Inr m"
    "0 < d" "0 < heads" "even dh" "0 < dh"
  shows "wf_predictor m d"
proof -
  define tbl where "tbl = map (\<lambda>r. map (emb_w ini r) [0 ..< pe]) [0 ..< np + 1]"
  from assms(1) obtain cv tr where
    cv: "ConvPositionEmbed_init d ks g (conv_w ini) (conv_b ini) = Inr cv"
    and tr: "Transformer_init d depth dh heads ffm (layer_w ini) = Inr tr"
    and m: "m = \<lparr>null_phoneme_id = int np,
          to_phoneme_emb = tbl,
          to_embed = Linear_init (d * 2 + pe) d (embed_w ini) (Some (embed_b ini)),
          null_cond = replicate d 0, conv_embed = cv, transformer = tr\<rparr>"
    unfolding tbl_def
    by (auto simp: DurationPredictor_init_def bindE_def split: sum.splits)
  have w: "width tbl = pe"
    unfolding tbl_def by (simp add: width_def upt_conv_Cons del: upt_Suc)
  have sh: "has_shape2 tbl (Suc np) pe"
    unfolding tbl_def by (auto simp: has_shape2_def)
  show ?thesis
    unfolding wf_predictor_def
    using assms(2) ConvPositionEmbed_init_wf [OF cv] Transformer_init_wf [OF tr assms(3-5)]
    by (simp add: m w sh Linear_init_wf)
qed

lemma VoiceBox_init_wf:
  assumes "VoiceBox_init np pe d depth dh heads ffm ks g ini = Inr m"
    "0 < d" "0 < heads" "even dh" "0 < dh"
  shows "wf_voicebox m d"
proof -
  from assms(1) obtain sinu dp where
    s: "LearnedSinusoidalPosEmb_init (int d) (sinu_w ini) = Inr sinu"
    and dp: "DurationPredictor_init np pe d depth dh heads ffm ks g ini = Inr dp"
    and m: "m = duration_predictor.extend dp (voicebox.fields sinu)"
    by (auto simp: VoiceBox_init_def bindE_def split: sum.splits)
  from s have ev: "even d" and sl: "length sinu = nat (int d div 2)"
    by (auto simp: LearnedSinusoidalPosEmb_init_def divisible_by_def Let_def split: if_splits)
  have "2 * length sinu = d" using ev sl by (auto elim!: evenE)
  moreover have "wf_predictor m d"
    using DurationPredictor_init_wf [OF dp assms(2-5)]
    by (simp add: m wf_predictor_def duration_predictor.defs voicebox.defs)
  moreover have "sinu_pos_emb m = sinu"
    by (simp add: m duration_predictor.defs voicebox.defs)
  ultimately show ?thesis by (simp add: wf_voicebox_def)
qed

lemma unpack_tl:
  assumes "has_shape3 z b (Suc n) d" "b = 0 \<or> k = n"
  shows "map (\<lambda>s. take k (drop 1 s)) z = map tl z"
proof (cases "b = 0")
  case True
  then show ?thesis using assms(1) by (simp add: has_shape3_def)
next
  case False
  then have k: "k = n" using assms(2) by simp
  have "take k (drop 1 s) = tl s" if "s \<in> set z" for s
  proof -
    have "length s = Suc n" using that assms(1) by (simp add: has_shape3_def has_shape2_def)
    then show ?thesis by (simp add: k drop_Suc)
  qed
  then show ?thesis by simp
qed

lemma VoiceBox_predict_steps:
  assumes wf: "wf_voicebox m d" and inp: "matching_inputs m b n d x ids cond"
    and ts: "length ts = b" and n: "0 < n" and b: "0 < b"
  shows "\<exists>c i e z. cond_drop m p us cond ids = Inr (c, i) \<and> embed_inputs m x i c = Inr e
           \<and> has_shape3 e b n d
           \<and> Transformer_forward (transformer m)
                 (map2 (#) (LearnedSinusoidalPosEmb_forward (sinu_pos_emb m) ts) e) = Inr z
           \<and> has_shape3 z b (Suc n) d
           \<and> VoiceBox_predict m x ids cond ts p us = Inr (map tl z)
           \<and> has_shape3 (map tl z) b n d"
proof -
  from wf have wfp: "wf_predictor m d" and sw: "2 * length (sinu_pos_emb m) = d"
    by (simp_all add: wf_voicebox_def)
  from wfp have d: "0 < d" by (simp add: wf_predictor_def)
  obtain c i where c: "cond_drop m p us cond ids = Inr (c, i)" "matching_inputs m b n d x i c"
    using cond_drop_shape [OF wfp inp] by blast
  obtain e where e: "embed_inputs m x i c = Inr e" "has_shape3 e b n d"
    using embed_inputs_shape [OF wfp c(2) n] by blast
  let ?te = "LearnedSinusoidalPosEmb_forward (sinu_pos_emb m) ts"
  have te: "has_shape2 ?te b d" using sinu_shape [of "sinu_pos_emb m" ts] ts sw by simp
  note pk = pack_shape [OF te e(2) b d]
  have "wf_transformer (transformer m) d" using wfp by (simp add: wf_predictor_def)
  then obtain z where z: "Transformer_forward (transformer m) (map2 (#) ?te e) = Inr z"
    "has_shape3 z b (Suc n) d"
    using Transformer_forward_shape pk by blast
  have k: "b = 0 \<or> seq_len e = n" using seq_len_shape [OF e(2)] by blast
  note up = unpack_shape [OF z(2) k]
  note tl = unpack_tl [OF z(2) k]
  have up': "unpack z [[], [seq_len e]] = Inr [map (take 1) z, map tl z]"
    "has_shape3 (map tl z) b n d"
    using up unfolding tl by blast+
  have "VoiceBox_predict m x ids cond ts p us = Inr (map tl z)"
    by (simp add: VoiceBox_predict_def c(1) e(1) pk z(1) up'(1))
  moreover note up'(2)
  ultimately show ?thesis using c(1) e z by blast
qed

section \<open>The masked loss\<close>

lemma zipE_zipE_Inr:
  assumes "length a = length c" "\<And>s t. (s, t) \<in> set (zip a c) \<Longrightarrow> length s = length t"
  shows "zipE (zipE (\<lambda>u v. Inr (f u v))) a c = Inr (map2 (map2 f) a c)"
proof (rule zipE_Inr [OF assms(1)])
  fix s t assume "(s, t) \<in> set (zip a c)"
  then have "length s = length t" by (rule assms(2))
  then show "zipE (\<lambda>u v. Inr (f u v)) s t = Inr (map2 f s t)"
    by (rule zipE_Inr) simp
qed

lemma masked_loss_eq:
  assumes "has_shape3 l b n d" "has_shape2 mk b n"
  shows "masked_loss l mk = Inr (code_masked l mk)"
proof -
  let ?l = "map (map mean_opt) l"
  let ?f = "\<lambda>v m. if m then Some 0 else (v :: real option)"
  have len: "length l = length mk" using assms by (simp add: has_shape3_def has_shape2_def)
  have rows: "length s = length t" if "(s, t) \<in> set (zip ?l mk)" for s t
  proof -
    from that have "s \<in> set ?l" "t \<in> set mk" by (auto dest!: in_zipD)
    then show ?thesis using assms by (auto simp: has_shape3_def has_shape2_def)
  qed
  have 1: "zipE (zipE (\<lambda>v m. Inr (?f v m))) ?l mk = Inr (map2 (map2 ?f) ?l mk)"
    by (rule zipE_zipE_Inr) (use len rows in auto)
  let ?num = "map sum_opt (map2 (map2 ?f) ?l mk)"
  let ?den = "map (\<lambda>m. max (real (length (filter id m))) (1 / 10 ^ 5)) mk"
  have 2: "zipE (\<lambda>a d. Inr (fdiv a d)) ?num ?den = Inr (map2 fdiv ?num ?den)"
    by (rule zipE_Inr) (use len in auto)
  have 3: "map2 fdiv ?num ?den
      = map2 (\<lambda>row m. fdiv (sum_opt (map2 (\<lambda>v c. if c then Some 0 else mean_opt v) row m))
            (max (real (length (filter id m))) (1 / 10 ^ 5))) l mk"
    using len
  proof (induction l mk rule: list_induct2)
    case Nil
    then show ?case by simp
  next
    case (Cons r rs m ms)
    have "map2 ?f (map mean_opt r) m = map2 (\<lambda>v c. if c then Some 0 else mean_opt v) r m"
      by (induction r arbitrary: m) (auto split: list.splits simp: zip_Cons1)
    then show ?case using Cons.IH by simp
  qed
  show ?thesis
    unfolding masked_loss_def Let_def code_masked_def
    by (simp only: 1 2 3 bindE_Inr)
qed

lemma loss_none_shape:
  assumes "has_shape3 y b n d" "has_shape3 tg b n d"
  shows "loss_none f y (Some tg) = Inr (map2 (map2 (map2 f)) y tg)"
  using ewise3_same [OF assms] by (simp add: loss_none_def)

lemma DurationPredictor_forward_masked:
  assumes "wf_predictor m d" "matching_inputs m b n d x ids cond" "0 < n"
    "has_shape3 tg b n d" "has_shape2 mk b n"
  shows "\<exists>y. DurationPredictor_predict m x ids cond p us = Inr y \<and> has_shape3 y b n d
           \<and> DurationPredictor_forward m x ids cond p (Some tg) (Some mk) us
               = Inr (code_masked (map2 (map2 (map2 l1)) y tg) mk)"
proof -
  obtain y where y: "DurationPredictor_predict m x ids cond p us = Inr y" "has_shape3 y b n d"
    using DurationPredictor_predict_shape [OF assms(1-3)] by blast
  have ld: "last_dim cond = last_dim x"
    using assms(2,3) by (auto simp: matching_inputs_def intro: last_dim_match)
  have l: "loss_none l1 y (Some tg) = Inr (map2 (map2 (map2 l1)) y tg)"
    using y(2) assms(4) by (rule loss_none_shape)
  have ml: "masked_loss (map2 (map2 (map2 l1)) y tg) mk
      = Inr (code_masked (map2 (map2 (map2 l1)) y tg) mk)"
    using has_shape3_map2 [OF y(2) assms(4)] assms(5) by (rule masked_loss_eq)
  show ?thesis
    using y by (simp add: DurationPredictor_forward_def ld l ml)
qed

lemma VoiceBox_forward_masked:
  assumes "wf_voicebox m d" "matching_inputs m b n d x ids cond" "length ts = b" "0 < n"
    "0 < b" "has_shape3 tg b n d" "has_shape2 mk b n"
  shows "\<exists>y. VoiceBox_predict m x ids cond ts p us = Inr y \<and> has_shape3 y b n d
           \<and> VoiceBox_forward m x ids cond ts p (Some tg) (Some mk) us
               = Inr (Loss (code_masked (map2 (map2 (map2 mse)) y tg) mk))"
proof -
  obtain y where y: "VoiceBox_predict m x ids cond ts p us = Inr y" "has_shape3 y b n d"
    using VoiceBox_predict_shape [OF assms(1-5)] by blast
  have ld: "last_dim cond = last_dim x"
    using assms(2,4) by (auto simp: matching_inputs_def intro: last_dim_match)
  have l: "loss_none mse y (Some tg) = Inr (map2 (map2 (map2 mse)) y tg)"
    using y(2) assms(6) by (rule loss_none_shape)
  have ml: "masked_loss (map2 (map2 (map2 mse)) y tg) mk
      = Inr (code_masked (map2 (map2 (map2 mse)) y tg) mk)"
    using has_shape3_map2 [OF y(2) assms(6)] assms(7) by (rule masked_loss_eq)
  show ?thesis
    using y by (simp add: VoiceBox_forward_def ld l ml exists_def)
qed

lemma those_replicate_Some: "those (replicate n (Some a)) = Some (replicate n a)"
  by (induction n) simp_all

lemma map2_const:
  "length xs = length ys \<Longrightarrow> (\<And>x y. (x, y) \<in> set (zip xs ys) \<Longrightarrow> f x y = c)
   \<Longrightarrow> map2 f xs ys = replicate (length xs) c"
  by (induction xs ys rule: list_induct2) auto

lemma sum_list_replicate_0: "sum_list (replicate n (0 :: real)) = 0"
  by (induction n) simp_all

lemma clamp_pos: "0 < max (a :: real) (1 / 10 ^ 5)"
  by (simp add: less_max_iff_disj)

lemma code_masked_all_True:
  assumes "has_shape3 l b n d" "has_shape2 mk b n" "\<forall>r \<in> set mk. \<forall>c \<in> set r. c" "0 < b"
  shows "code_masked l mk = Some 0"
proof -
  let ?g = "\<lambda>row m. fdiv (sum_opt (map2 (\<lambda>v c. if c then Some 0 else mean_opt v) row m))
            (max (real (length (filter id m))) (1 / 10 ^ 5))"
  have len: "length l = length mk" using assms by (simp add: has_shape3_def has_shape2_def)
  have "map2 ?g l mk = replicate (length l) (Some 0)"
  proof (rule map2_const [OF len])
    fix row m assume rm: "(row, m) \<in> set (zip l mk)"
    then have r: "length row = n" and m: "length m = n" "\<forall>c \<in> set m. c"
      using assms by (auto simp: has_shape3_def has_shape2_def dest!: in_zipD)
    have "map2 (\<lambda>v c. if c then Some 0 else mean_opt v) row m = replicate (length row) (Some 0)"
      by (rule map2_const) (use r m in \<open>auto dest!: in_zipD\<close>)
    then have "sum_opt (map2 (\<lambda>v c. if c then Some 0 else mean_opt v) row m) = Some 0"
      by (simp add: sum_opt_def those_replicate_Some sum_list_replicate_0)
    moreover have "max (real (length (filter id m))) (1 / 10 ^ 5) \<noteq> 0"
      using clamp_pos [of "real (length (filter id m))"] by simp
    ultimately show "?g row m = Some 0" by (simp add: fdiv_def)
  qed
  then have "code_masked l mk = mean_opts (replicate b (Some 0))"
    using assms(1) by (simp add: code_masked_def has_shape3_def)
  then show ?thesis
    using assms(4) by (simp add: mean_opts_def those_replicate_Some mean_opt_def sum_list_replicate_0)
qed

lemma sum_list_map_divide:
  "sum_list (map (\<lambda>x. f x / c) xs) = sum_list (map f xs) / (c :: real)"
  by (induction xs) (simp_all add: add_divide_distrib)

lemma those_map_Some: "those (map (\<lambda>x. Some (f x)) xs) = Some (map f xs)"
  by (induction xs) simp_all

lemma map2_all_False:
  "length xs = length ys \<Longrightarrow> \<forall>c \<in> set ys. \<not> c
   \<Longrightarrow> map2 (\<lambda>v c. if c then a else f v) xs ys = map f xs"
  by (induction xs ys rule: list_induct2) auto

lemma filter_all_False: "\<forall>c \<in> set ys. \<not> c \<Longrightarrow> filter id ys = []"
  by (induction ys) auto

lemma map2_Cons: "map2 f (x # xs) (y # ys) = f x y # map2 f xs ys"
  by simp

lemma code_masked_all_False:
  assumes "has_shape3 l b n d" "has_shape2 mk b n" "\<forall>r \<in> set mk. \<forall>c \<in> set r. \<not> c"
    "0 < b" "0 < d"
  shows "code_masked l mk
     = Some (sum_list (map (\<lambda>row. sum_list (map (\<lambda>v. sum_list v / real d) row) / (1 / 10 ^ 5)) l)
             / real b)"
proof -
  let ?g = "\<lambda>row m. fdiv (sum_opt (map2 (\<lambda>v c. if c then Some 0 else mean_opt v) row m))
            (max (real (length (filter id m))) (1 / 10 ^ 5))"
  let ?h = "\<lambda>row. sum_list (map (\<lambda>v. sum_list v / real d) row) / (1 / 10 ^ 5)"
  have len: "length l = length mk" using assms by (simp add: has_shape3_def has_shape2_def)
  have "map2 ?g l mk = map (\<lambda>row. Some (?h row)) l"
    using len assms(1,2,3)
  proof (induction l mk arbitrary: b rule: list_induct2)
    case Nil
    then show ?case by simp
  next
    case (Cons row rows m ms)
    have r: "has_shape2 row n d" and m: "length m = n" "\<forall>c \<in> set m. \<not> c"
      using Cons.prems by (auto simp: has_shape3_def has_shape2_def)
    have rm: "length row = length m" using r m by (simp add: has_shape2_def)
    have mo: "map mean_opt row = map (\<lambda>v. Some (sum_list v / real d)) row"
      using r assms(5) by (auto simp: has_shape2_def mean_opt_def)
    have "map2 (\<lambda>v c. if c then Some 0 else mean_opt v) row m = map mean_opt row"
      using rm m(2) by (rule map2_all_False)
    then have "sum_opt (map2 (\<lambda>v c. if c then Some 0 else mean_opt v) row m)
        = sum_opt (map (\<lambda>v. Some (sum_list v / real d)) row)"
      by (simp only: mo)
    then have "sum_opt (map2 (\<lambda>v c. if c then Some 0 else mean_opt v) row m)
        = Some (sum_list (map (\<lambda>v. sum_list v / real d) row))"
      by (simp add: sum_opt_def those_map_Some)
    then have hd: "?g row m = Some (?h row)"
      using m(2) by (simp add: filter_all_False fdiv_def)
    have "has_shape3 rows (length rows) n d" "has_shape2 ms (length rows) n"
      "\<forall>r \<in> set ms. \<forall>c \<in> set r. \<not> c"
      using Cons.prems Cons.hyps by (auto simp: has_shape3_def has_shape2_def)
    then have "map2 ?g rows ms = map (\<lambda>row. Some (?h row)) rows" by (rule Cons.IH)
    then show ?case by (simp only: map2_Cons list.map hd)
  qed
  then have "code_masked l mk = mean_opts (map (\<lambda>row. Some (?h row)) l)"
    by (simp add: code_masked_def)
  also have "\<dots> = Some (sum_list (map ?h l) / real b)"
    using assms(1,4) by (auto simp: mean_opts_def those_map_Some mean_opt_def has_shape3_def)
  finally show ?thesis .
qed

lemma length_concat_shape2: "has_shape2 s n d \<Longrightarrow> length (concat s) = d * n"
  using length_concat_const [of s d] by (simp add: has_shape2_def)

lemma length_concat_shape3: "has_shape3 l b n d \<Longrightarrow> length (concat (concat l)) = d * n * b"
proof (induction l arbitrary: b)
  case Nil
  then show ?case by (simp add: has_shape3_def)
next
  case (Cons s l)
  have "has_shape3 l (length l) n d" "has_shape2 s n d" "b = Suc (length l)"
    using Cons.prems by (auto simp: has_shape3_def)
  then show ?case using Cons.IH [of "length l"] by (simp add: length_concat_shape2)
qed

lemma sum_list_concat_real: "sum_list (concat xss) = sum_list (map sum_list xss)"
  by (induction xss) simp_all

lemma sum_all_elements:
  "sum_list (concat (concat l)) = sum_list (map (\<lambda>row. sum_list (map sum_list row)) l)"
  by (induction l) (simp_all add: sum_list_concat_real)

lemma masked_vs_mean:
  assumes "0 < b" "0 < n" "0 < d"
  shows "sum_list (map (\<lambda>row. sum_list (map (\<lambda>v. sum_list v / real d) row) / (1 / 10 ^ 5)) l)
           / real b
       = real n * 10 ^ 5 * (sum_list (concat (concat l)) / real (d * n * b))"
proof -
  have "sum_list (map (\<lambda>row. sum_list (map (\<lambda>v. sum_list v / real d) row) / (1 / 10 ^ 5)) l)
      = sum_list (map (\<lambda>row. sum_list (map sum_list row)) l) / real d / (1 / 10 ^ 5)"
    by (simp only: sum_list_map_divide)
  moreover have "S / real d / (1 / 10 ^ 5) / real b = real n * 10 ^ 5 * (S / real (d * n * b))"
    for S :: real
    using assms by (simp add: field_simps)
  ultimately show ?thesis by (simp only: sum_all_elements)
qed


lemma those_all_Some:
  "(\<And>x. x \<in> set xs \<Longrightarrow> \<exists>y. x = Some y) \<Longrightarrow> \<exists>ys. those xs = Some ys \<and> length ys = length xs"
proof (induction xs)
  case Nil
  then show ?case by simp
next
  case (Cons x xs)
  then obtain y where "x = Some y" by auto
  moreover from Cons obtain ys where "those xs = Some ys" "length ys = length xs" by auto
  ultimately show ?case by simp
qed

lemma code_masked_finite:
  assumes "has_shape3 l b n d" "has_shape2 mk b n" "0 < b" "0 < d"
  shows "\<exists>v. code_masked l mk = Some v"
proof -
  let ?g = "\<lambda>row m. fdiv (sum_opt (map2 (\<lambda>v c. if c then Some 0 else mean_opt v) row m))
            (max (real (length (filter id m))) (1 / 10 ^ 5))"
  have len: "length l = length mk" using assms by (simp add: has_shape3_def has_shape2_def)
  have "\<exists>ys. those (map2 ?g l mk) = Some ys \<and> length ys = length (map2 ?g l mk)"
  proof (rule those_all_Some)
    fix x assume "x \<in> set (map2 ?g l mk)"
    then obtain row m where rm: "(row, m) \<in> set (zip l mk)" and x: "x = ?g row m" by auto
    then have r: "has_shape2 row n d"
      using assms(1) by (auto simp: has_shape3_def dest!: in_zipD)
    have "\<exists>ys. those (map2 (\<lambda>v c. if c then Some 0 else mean_opt v) row m) = Some ys
        \<and> length ys = length (map2 (\<lambda>v c. if c then Some 0 else mean_opt v) row m)"
    proof (rule those_all_Some)
      fix e assume "e \<in> set (map2 (\<lambda>v c. if c then Some 0 else mean_opt v) row m)"
      then obtain v c where "(v, c) \<in> set (zip row m)" "e = (if c then Some 0 else mean_opt v)"
        by auto
      moreover from this have "v \<noteq> []"
        using r assms(4) by (auto simp: has_shape2_def dest!: in_zipD)
      ultimately show "\<exists>y. e = Some y" by (auto simp: mean_opt_def)
    qed
    then obtain s where "sum_opt (map2 (\<lambda>v c. if c then Some 0 else mean_opt v) row m) = Some s"
      by (auto simp: sum_opt_def)
    moreover have "max (real (length (filter id m))) (1 / 10 ^ 5) \<noteq> 0"
      using clamp_pos [of "real (length (filter id m))"] by simp
    ultimately show "\<exists>y. x = Some y" by (simp add: x fdiv_def)
  qed
  then obtain ys where ys: "those (map2 ?g l mk) = Some ys" "length ys = length (map2 ?g l mk)"
    by blast
  have "ys \<noteq> []" using ys(2) len assms(1,3) by (auto simp: has_shape3_def)
  then have "mean_opt ys = Some (sum_list ys / real (length ys))" by (simp add: mean_opt_def)
  then show ?thesis unfolding code_masked_def mean_opts_def ys(1) by simp
qed

section \<open>The example instances\<close>

lemma erf_0 [simp]: "erf 0 = 0"
  by (simp add: erf_def)

lemma gelu_0 [simp]: "gelu 0 = 0"
  by (simp add: gelu_def)

lemmas upt_numeral_simps = upt_rec [of _ "numeral k" for k] upt_rec [of _ "Suc k" for k]
   upt_rec [of _ 1]

lemma example_predictor_init:
  "DurationPredictor_init 2 1 2 2 2 1 1 3 None zero_ini = Inr example_predictor"
  by (simp add: example_predictor_def DurationPredictor_init_def ConvPositionEmbed_init_def
      Transformer_init_eq divisible_by_def is_odd_def default_py_def)

lemma example_embed:
  "embed_inputs example_predictor example_x example_ids example_cond
     = Inr [[[0, 0], [0, 0], [0, 0]]]"
  apply (simp add: example_predictor_def DurationPredictor_init_def ConvPositionEmbed_init_def
      Transformer_init_eq divisible_by_def is_odd_def default_py_def zero_ini_def
      zero_layer_ini_def Linear_init_def)
  apply (simp add: embed_inputs_def example_x_def example_ids_def example_cond_def
      Embedding_forward_def cat_last_def Linear_forward_def dot_def upt_numeral_simps
      ConvPositionEmbed_forward_def Conv1d_forward_def width_def add3_def zipE_def broadcast2_def
      nth_append)
  done

lemma example_transformer:
  "Transformer_forward (transformer example_predictor) [[[0, 0], [0, 0], [0, 0]]]
     = Inr [[[0, 0], [0, 0], [0, 0]]]"
  apply (simp add: example_predictor_def DurationPredictor_init_def ConvPositionEmbed_init_def
      Transformer_init_eq divisible_by_def is_odd_def default_py_def zero_ini_def
      zero_layer_ini_def Linear_init_def Attention_init_def FeedForward_def RMSNorm_init_def
      RotaryEmbedding_init_def upt_numeral_simps)
  apply (simp add: Transformer_forward_def seq_len_def RotaryEmbedding_forward_def
      upt_numeral_simps skip_step_def residual_steps_def Attention_forward_def
      Attention_seq_def RMSNorm_forward_def normalize_def l2norm_def broadcast2_def Linear_forward_def
      dot_def chunk_qkv_def chunk_def split_heads_def rotary_call_def zipE_def
      apply_rotary_pos_emb_def rotate_half_def attend_def attend_head_def softmax_def
      merge_heads_def width_def add3_def FeedForward_forward_def FeedForward_vec_def
      cat_last_def)
  done

lemma example_voicebox_init:
  "VoiceBox_init 2 1 2 2 2 1 1 3 None zero_ini = Inr example_voicebox"
  by (simp add: example_voicebox_def VoiceBox_init_def LearnedSinusoidalPosEmb_init_def
      DurationPredictor_init_def ConvPositionEmbed_init_def
      Transformer_init_eq divisible_by_def is_odd_def default_py_def)

lemma example_predictor_wf: "wf_predictor example_predictor 2"
  using DurationPredictor_init_wf [OF example_predictor_init] by simp

lemma example_voicebox_wf: "wf_voicebox example_voicebox 2"
  using VoiceBox_init_wf [OF example_voicebox_init] by simp

lemma DurationPredictor_init_null_id:
  "DurationPredictor_init np pe d depth dh heads ffm ks g ini = Inr m \<Longrightarrow> null_phoneme_id m = int np"
  by (auto simp: DurationPredictor_init_def bindE_def split: sum.splits)

lemma VoiceBox_init_null_id:
  "VoiceBox_init np pe d depth dh heads ffm ks g ini = Inr m \<Longrightarrow> null_phoneme_id m = int np"
  by (auto simp: VoiceBox_init_def bindE_def duration_predictor.defs
      dest: DurationPredictor_init_null_id split: sum.splits)

lemma example_shapes:
  "has_shape3 example_x 1 3 2" "has_shape3 example_cond 1 3 2" "has_shape2 example_ids 1 3"
  "has_shape3 example_target 1 3 2"
  by (simp_all add: has_shape3_def has_shape2_def example_x_def example_cond_def example_ids_def
      example_target_def)

lemma example_predictor_matching:
  "matching_inputs example_predictor 1 3 2 example_x example_ids example_cond"
  using DurationPredictor_init_null_id [OF example_predictor_init] example_shapes(1,2,3)
  by (simp add: matching_inputs_def) (simp add: example_ids_def)

lemma example_voicebox_matching:
  "matching_inputs example_voicebox 1 3 2 example_x example_ids example_cond"
  using VoiceBox_init_null_id [OF example_voicebox_init] example_shapes(1,2,3)
  by (simp add: matching_inputs_def) (simp add: example_ids_def)

lemmas init_defs = DurationPredictor_init_def VoiceBox_init_def LearnedSinusoidalPosEmb_init_def
  ConvPositionEmbed_init_def Transformer_init_eq divisible_by_def is_odd_def default_py_def
  zero_ini_def zero_layer_ini_def Linear_init_def Attention_init_def FeedForward_def
  RMSNorm_init_def RotaryEmbedding_init_def duration_predictor.defs voicebox.defs

lemmas embed_defs = embed_inputs_def example_x_def example_ids_def example_cond_def
  Embedding_forward_def cat_last_def Linear_forward_def dot_def
  ConvPositionEmbed_forward_def Conv1d_forward_def width_def add3_def zipE_def broadcast2_def
  nth_append

lemmas transformer_defs = Transformer_forward_def seq_len_def RotaryEmbedding_forward_def
  skip_step_def residual_steps_def Attention_forward_def
  Attention_seq_def RMSNorm_forward_def normalize_def l2norm_def broadcast2_def Linear_forward_def
  dot_def chunk_qkv_def chunk_def split_heads_def rotary_call_def zipE_def
  apply_rotary_pos_emb_def rotate_half_def attend_def attend_head_def softmax_def
  merge_heads_def width_def add3_def FeedForward_forward_def FeedForward_vec_def
  cat_last_def

lemma example_predict:
  "DurationPredictor_predict example_predictor example_x example_ids example_cond 0 us
     = Inr [[[0, 0], [0, 0], [0, 0]]]"
  by (simp add: DurationPredictor_predict_def cond_drop_def example_embed example_transformer)

lemma example_voicebox_embed:
  "embed_inputs example_voicebox example_x example_ids example_cond
     = Inr [[[0, 0], [0, 0], [0, 0]]]"
  apply (simp add: example_voicebox_def init_defs upt_numeral_simps)
  apply (simp add: embed_defs upt_numeral_simps)
  done

lemma example_voicebox_transformer:
  "Transformer_forward (transformer example_voicebox) [[[0, 1], [0, 0], [0, 0], [0, 0]]]
     = Inr [[[0, 0], [0, 0], [0, 0], [0, 0]]]"
  apply (simp add: example_voicebox_def init_defs upt_numeral_simps)
  apply (simp add: transformer_defs upt_numeral_simps)
  done

lemma example_voicebox_predict:
  "VoiceBox_predict example_voicebox example_x example_ids example_cond [1 / 2] 0 us
     = Inr [[[0, 0], [0, 0], [0, 0]]]"
proof -
  have s: "sinu_pos_emb example_voicebox = [0]"
    by (simp add: example_voicebox_def init_defs upt_numeral_simps)
  show ?thesis
    by (simp add: VoiceBox_predict_def cond_drop_def example_voicebox_embed s
        LearnedSinusoidalPosEmb_forward_def pack_def seq_len_def example_voicebox_transformer
        unpack_def upt_numeral_simps)
qed

lemma example_transformer_init:
  "Transformer_init 2 2 2 1 1 (\<lambda>_. zero_layer_ini) = Inr (transformer example_predictor)"
  by (simp add: example_predictor_def DurationPredictor_init_def ConvPositionEmbed_init_def
      Transformer_init_eq divisible_by_def is_odd_def default_py_def zero_ini_def)

section \<open>Rotation of pairs\<close>

lemma cos_sq: "cos t * cos t = 1 - sin t * sin (t :: real)"
  using sin_cos_squared_add [of t] by (simp add: power2_eq_square)

lemma map2_append:
  "length xs = length us \<Longrightarrow> map2 f (xs @ ys) (us @ vs) = map2 f xs us @ map2 f ys vs"
  by simp

lemma rot_first:
  assumes "length a = length b" "length b = length th"
  shows "map2 (+) (map2 (*) a (map cos th)) (map2 (*) (map uminus b) (map sin th))
       = map (\<lambda>(x, y, t). x * cos t - y * sin t) (zip a (zip b th))"
  using assms by (induction a b th rule: list_induct3) auto

lemma rot_second:
  assumes "length a = length b" "length b = length th"
  shows "map2 (+) (map2 (*) b (map cos th)) (map2 (*) a (map sin th))
       = map (\<lambda>(x, y, t). y * cos t + x * sin t) (zip a (zip b th))"
  using assms by (induction a b th rule: list_induct3) auto

lemma rotary_halves:
  assumes "length a = length th" "length b = length th" "0 < length th"
  shows "apply_rotary_pos_emb (th @ th) (a @ b) = Inr (rotate_pairs th a b)"
proof -
  let ?k = "length th"
  have t: "length (a @ b) = 2 * ?k" "length (th @ th) = 2 * ?k" using assms by simp_all
  have ab: "length a = length b" using assms by simp
  have dt: "drop ?k (a @ b) = b" "take ?k (a @ b) = a" using assms by simp_all
  have c: "map2 (*) (a @ b) (map cos (th @ th))
      = map2 (*) a (map cos th) @ map2 (*) b (map cos th)"
    unfolding map_append by (rule map2_append) (use assms in simp)
  have s: "map2 (*) (map uminus b @ a) (map sin (th @ th))
      = map2 (*) (map uminus b) (map sin th) @ map2 (*) a (map sin th)"
    unfolding map_append by (rule map2_append) (use assms in simp)
  have p: "map2 (+) (map2 (*) a (map cos th) @ map2 (*) b (map cos th))
             (map2 (*) (map uminus b) (map sin th) @ map2 (*) a (map sin th))
      = map2 (+) (map2 (*) a (map cos th)) (map2 (*) (map uminus b) (map sin th))
        @ map2 (+) (map2 (*) b (map cos th)) (map2 (*) a (map sin th))"
    by (rule map2_append) (use assms in simp)
  have "apply_rotary_pos_emb (th @ th) (a @ b)
      = Inr (map2 (+) (map2 (*) (a @ b) (map cos (th @ th)))
               (map2 (*) (map uminus (drop ?k (a @ b)) @ take ?k (a @ b)) (map sin (th @ th))))"
    using t assms(3) by (rule apply_rotary_pos_emb_even)
  then show ?thesis
    unfolding dt c s p rot_first [OF ab assms(2)] rot_second [OF ab assms(2)] rotate_pairs_def .
qed

lemma rotate_pairs_length:
  "length a = length th \<Longrightarrow> length b = length th \<Longrightarrow> length (rotate_pairs th a b) = 2 * length th"
  by (simp add: rotate_pairs_def)

lemma sumsq_rotate:
  assumes "length a = length b" "length b = length th"
  shows "sum_list (map (\<lambda>c. c * c) (rotate_pairs th a b))
       = sum_list (map (\<lambda>c. c * c) a) + sum_list (map (\<lambda>c. c * c) b)"
proof -
  have e: "(x * cos t - y * sin t) * (x * cos t - y * sin t)
         + (y * cos t + x * sin t) * (y * cos t + x * sin t) = x * x + y * y" for x y t :: real
    by (simp add: algebra_simps cos_sq)
  have "sum_list (map (\<lambda>c. c * c) (map (\<lambda>(x, y, t). x * cos t - y * sin t) (zip a (zip b th))))
      + sum_list (map (\<lambda>c. c * c) (map (\<lambda>(x, y, t). y * cos t + x * sin t) (zip a (zip b th))))
      = sum_list (map (\<lambda>c. c * c) a) + sum_list (map (\<lambda>c. c * c) b)"
    using assms
  proof (induction a b th rule: list_induct3)
    case Nil
    then show ?case by simp
  next
    case (Cons x xs y ys t ts)
    then show ?case using e [where x = x and y = y and t = t] by simp
  qed
  then show ?thesis by (simp add: rotate_pairs_def)
qed

lemma rotate_back:
  assumes "length a = length b" "length b = length th"
  shows "rotate_pairs (map uminus th)
           (map (\<lambda>(x, y, t). x * cos t - y * sin t) (zip a (zip b th)))
           (map (\<lambda>(x, y, t). y * cos t + x * sin t) (zip a (zip b th))) = a @ b"
proof -
  have e1: "(x * cos t - y * sin t) * cos t + (y * cos t + x * sin t) * sin t = x" for x y t :: real
    by (simp add: algebra_simps cos_sq)
  have e2: "(y * cos t + x * sin t) * cos t - (x * cos t - y * sin t) * sin t = y" for x y t :: real
    by (simp add: algebra_simps cos_sq)
  let ?p = "map (\<lambda>(x, y, t). x * cos t - y * sin t) (zip a (zip b th))"
  let ?q = "map (\<lambda>(x, y, t). y * cos t + x * sin t) (zip a (zip b th))"
  have 1: "map (\<lambda>(x, y, t). x * cos t - y * sin t) (zip ?p (zip ?q (map uminus th))) = a"
    using assms
  proof (induction a b th rule: list_induct3)
    case Nil
    then show ?case by simp
  next
    case (Cons x xs y ys t ts)
    then show ?case using e1 [where x = x and y = y and t = t] by simp
  qed
  have 2: "map (\<lambda>(x, y, t). y * cos t + x * sin t) (zip ?p (zip ?q (map uminus th))) = b"
    using assms
  proof (induction a b th rule: list_induct3)
    case Nil
    then show ?case by simp
  next
    case (Cons x xs y ys t ts)
    then show ?case using e2 [where x = x and y = y and t = t] by simp
  qed
  show ?thesis unfolding rotate_pairs_def 1 2 ..
qed

lemma rotary_row:
  assumes "i < n"
  shows "RotaryEmbedding_forward inv_freq n ! i
       = map (\<lambda>f. real i * f) inv_freq @ map (\<lambda>f. real i * f) inv_freq"
  using assms by (simp add: RotaryEmbedding_forward_def Let_def)

section \<open>The skip connections and the dropped conditioning\<close>

lemma bindE_assoc: "bindE (bindE r f) g = bindE r (\<lambda>v. bindE (f v) g)"
  by (cases r) simp_all

lemma Transformer_init_layers:
  assumes "Transformer_init d depth dh heads ffm ini = Inr t"
  shows "even depth" "length (layers t) = nat depth"
    "\<forall>i < length (layers t).
       skip_combiner (layers t ! i) \<noteq> None \<longleftrightarrow> length (layers t) div 2 \<le> i"
proof -
  from assms show ev: "even depth"
    by (auto simp: Transformer_init_eq divisible_by_def split: if_splits)
  let ?mk = "\<lambda>ind. \<lparr>skip_combiner =
                 (if int ind + 1 > depth div 2
                  then Some (Linear_init (d * 2) d (skip_w (ini ind)) (Some (skip_b (ini ind))))
                  else None),
               attn = projr (Attention_init d dh heads (qkv_w (ini ind)) (out_w (ini ind))),
               ff = FeedForward d ffm (ff_in_w (ini ind)) (ff_in_b (ini ind))
                      (ff_out_w (ini ind)) (ff_out_b (ini ind))\<rparr>"
  from assms have t: "layers t = map ?mk [0 ..< nat depth]"
    by (auto simp: Transformer_init_eq split: if_splits)
  then show len: "length (layers t) = nat depth" by simp
  show "\<forall>i < length (layers t).
      skip_combiner (layers t ! i) \<noteq> None \<longleftrightarrow> length (layers t) div 2 \<le> i"
  proof (intro allI impI)
    fix i assume "i < length (layers t)"
    then have i: "i < nat depth" by (simp add: t)
    then have "skip_combiner (layers t ! i) \<noteq> None \<longleftrightarrow> int i + 1 > depth div 2"
      by (simp add: t)
    also have "\<dots> \<longleftrightarrow> nat depth div 2 \<le> i" using i ev by (auto elim!: evenE)
    finally show "skip_combiner (layers t ! i) \<noteq> None \<longleftrightarrow> length (layers t) div 2 \<le> i"
      by (simp add: t)
  qed
qed

lemma upt_Suc_snoc: "a \<le> b \<Longrightarrow> [a ..< Suc b] = [a ..< b] @ [b]"
  by simp

lemma loop_refines:
  assumes "\<forall>j < length ls. (skip_combiner (ls ! j) \<noteq> None) = (m < k + j)"
    "k + length ls = 2 * m + 1" "1 \<le> k"
    "stack = map inputs [1 ..< Suc (min (k - 1) (2 * m + 1 - k))]"
  shows "Transformer_loop rotary ls x stack = spec_layers (2 * m) rotary ls k inputs x"
  using assms
proof (induction ls arbitrary: k x stack inputs)
  case Nil
  then show ?case by simp
next
  case (Cons l ls)
  have l: "(skip_combiner l \<noteq> None) = (m < k)" using Cons.prems(1) by fastforce
  have rest: "\<forall>j < length ls. (skip_combiner (ls ! j) \<noteq> None) = (m < Suc k + j)"
    using Cons.prems(1) by fastforce
  have len: "Suc k + length ls = 2 * m + 1" using Cons.prems(2) by simp
  have k2m: "k \<le> 2 * m" using Cons.prems(2) by simp
  show ?case
  proof (cases "k \<le> m")
    case True
    then have none: "skip_combiner l = None" using l by simp
    have mn: "Suc (min (k - 1) (2 * m + 1 - k)) = k" using Cons.prems(3) True by arith
    have st: "stack = map inputs [1 ..< k]"
      using Cons.prems(4) unfolding mn .
    have "stack @ [x] = map (inputs(k := x)) [1 ..< Suc (min (Suc k - 1) (2 * m + 1 - Suc k))]"
    proof -
      have "min (Suc k - 1) (2 * m + 1 - Suc k) = k" using True by arith
      moreover have "map (inputs(k := x)) [1 ..< Suc k] = map inputs [1 ..< k] @ [x]"
        using Cons.prems(3) by (simp add: upt_Suc_snoc)
      ultimately show ?thesis by (simp only: st)
    qed
    then have "Transformer_loop rotary ls y (stack @ [x])
        = spec_layers (2 * m) rotary ls (Suc k) (inputs(k := x)) y" for y
      using Cons.IH [OF rest len] by simp
    then show ?thesis using True by (simp add: skip_step_def none)
  next
    case False
    then obtain c where some: "skip_combiner l = Some c" using l by auto
    have mn: "min (k - 1) (2 * m + 1 - k) = 2 * m + 1 - k" using False by arith
    have st: "stack = map inputs [1 ..< 2 * m + 1 - k] @ [inputs (2 * m + 1 - k)]"
      using Cons.prems(4) k2m unfolding mn by (simp add: upt_Suc_snoc)
    have "butlast stack = map inputs [1 ..< Suc (min (Suc k - 1) (2 * m + 1 - Suc k))]"
    proof -
      have "min (Suc k - 1) (2 * m + 1 - Suc k) = 2 * m - k" using False by arith
      moreover have "Suc (2 * m - k) = 2 * m + 1 - k" using k2m by simp
      ultimately show ?thesis by (simp add: st)
    qed
    then have ih: "Transformer_loop rotary ls y (butlast stack)
        = spec_layers (2 * m) rotary ls (Suc k) inputs y" for y
      using Cons.IH [OF rest len] by simp
    have ls: "last stack = inputs (2 * m + 1 - k)" "stack \<noteq> []" by (simp_all add: st)
    show ?thesis
      using False by (simp add: skip_step_def some ls bindE_assoc ih)
  qed
qed

lemma map2_first: "length u = length v \<Longrightarrow> map2 (\<lambda>a b. a) u v = u"
  by (induction u v rule: list_induct2) auto

lemma zipE_replicate_True:
  assumes "length ys = b" "\<And>y. y \<in> set ys \<Longrightarrow> f True y = Inr (g y)"
  shows "zipE f (replicate b True) ys = Inr (map g ys)"
proof -
  have "zipE f (replicate b True) ys = Inr (map2 (\<lambda>c y. g y) (replicate b True) ys)"
    by (rule zipE_Inr) (use assms in \<open>auto dest!: in_zipD\<close>)
  moreover have "map2 (\<lambda>c y. g y) (replicate b True) ys = map g ys"
    using assms(1) by (induction ys arbitrary: b) auto
  ultimately show ?thesis by simp
qed

lemma map_const_shape2: "has_shape2 s n d \<Longrightarrow> map (\<lambda>_. c) s = replicate n c"
  by (simp add: has_shape2_def map_replicate_const)

lemma cond_drop_one:
  assumes "length (null_cond m) = d" "has_shape3 cond b n d" "has_shape2 ids b n"
  shows "cond_drop m 1 us cond ids
     = Inr (replicate b (replicate n (null_cond m)), replicate b (replicate n (null_phoneme_id m)))"
proof -
  have lc: "length cond = b" and li: "length ids = b"
    using assms by (simp_all add: has_shape3_def has_shape2_def)
  have 1: "zipE (\<lambda>c s. mapE (broadcast2 (\<lambda>a b. if c then a else b) (null_cond m)) s)
             (replicate b True) cond = Inr (map (\<lambda>s. replicate n (null_cond m)) cond)"
  proof (rule zipE_replicate_True [OF lc])
    fix s assume "s \<in> set cond"
    then have s: "has_shape2 s n d" using assms(2) by (simp add: has_shape3_def)
    have "mapE (broadcast2 (\<lambda>a b. if True then a else b) (null_cond m)) s
        = Inr (map (\<lambda>_. null_cond m) s)"
    proof (rule mapE_Inr)
      fix v assume "v \<in> set s"
      then have "length (null_cond m) = length v" using s assms(1) by (simp add: has_shape2_def)
      then show "broadcast2 (\<lambda>a b. if True then a else b) (null_cond m) v = Inr (null_cond m)"
        by (simp add: broadcast2_def map2_first)
    qed
    then show "mapE (broadcast2 (\<lambda>a b. if True then a else b) (null_cond m)) s
        = Inr (replicate n (null_cond m))"
      using s by (simp add: map_const_shape2)
  qed
  have 2: "zipE (\<lambda>c r. Inr (map (\<lambda>i. if c then null_phoneme_id m else i) r))
             (replicate b True) ids = Inr (map (\<lambda>r. replicate n (null_phoneme_id m)) ids)"
  proof (rule zipE_replicate_True [OF li])
    fix r assume "r \<in> set ids"
    then have "length r = n" using assms(3) by (simp add: has_shape2_def)
    then show "Inr (map (\<lambda>i. if True then null_phoneme_id m else i) r)
        = Inr (replicate n (null_phoneme_id m))"
      by (simp add: map_replicate_const)
  qed
  have 3: "map (\<lambda>s. replicate n (null_cond m)) cond = replicate b (replicate n (null_cond m))"
    "map (\<lambda>r. replicate n (null_phoneme_id m)) ids = replicate b (replicate n (null_phoneme_id m))"
    using lc li by (simp_all add: map_replicate_const)
  show ?thesis
    unfolding cond_drop_def prob_mask_like_def Let_def lc
    by (simp add: 1 2 3)
qed

lemma last_dim_replicate:
  assumes "has_shape3 cond b n d" "length c = d"
  shows "last_dim (replicate b (replicate n c)) = last_dim cond"
proof (cases "b = 0 \<or> n = 0")
  case True
  then show ?thesis
    using assms(1) by (cases cond) (auto simp: last_dim_def has_shape3_def has_shape2_def)
next
  case False
  then obtain b' n' where "b = Suc b'" "n = Suc n'" by (auto simp: gr0_conv_Suc)
  then have "last_dim (replicate b (replicate n c)) = d" using assms(2) by (simp add: last_dim_def)
  then show ?thesis using last_dim_shape [OF assms(1)] False by simp
qed

section \<open>Preconditions fail fast\<close>

text \<open>
  C7: an invalid configuration or input raises AssertionError and nothing else happens:
  constructing a Transformer with an odd depth, a ConvPositionEmbed with an even kernel
  size, a LearnedSinusoidalPosEmb with an odd dimension, and calling either \<open>forward\<close>
  with \<open>cond.shape[-1] != x.shape[-1]\<close>, whatever the other arguments and the parameters
  of the model are; \<open>last_dim\<close> is the size of the last axis of a tensor without an empty
  axis. The constructors of the two models fail with their parts.
\<close>

theorem C7_fail_fast:
  "(odd depth \<longrightarrow> Transformer_init dim' depth dim_head heads ff_mult ini = Inl AssertionError)
   \<and> (even kernel_size \<longrightarrow>
        ConvPositionEmbed_init dim' kernel_size groups w b = Inl AssertionError)
   \<and> (odd d \<longrightarrow> LearnedSinusoidalPosEmb_init d sw = Inl AssertionError)
   \<and> (last_dim cond \<noteq> last_dim x \<longrightarrow>
        DurationPredictor_forward m x ids cond p target mask' us = Inl AssertionError
        \<and> VoiceBox_forward vm x ids cond ts p target mask' us = Inl AssertionError)
   \<and> (has_shape3 x bx nx dx \<and> has_shape3 cond bc nc dc \<and> 0 < bx \<and> 0 < nx \<and> 0 < bc
        \<and> 0 < nc \<and> dc \<noteq> dx \<longrightarrow>
        DurationPredictor_forward m x ids cond p target mask' us = Inl AssertionError
        \<and> VoiceBox_forward vm x ids cond ts p target mask' us = Inl AssertionError)
   \<and> (odd depth \<or> even kernel_size \<longrightarrow>
        isl (DurationPredictor_init np pe dim' depth dim_head heads ff_mult kernel_size groups mi))
   \<and> (odd depth \<or> even kernel_size \<or> odd dim' \<longrightarrow>
        isl (VoiceBox_init np pe dim' depth dim_head heads ff_mult kernel_size groups mi))"
proof -
  have t: "odd depth \<Longrightarrow> Transformer_init dim' depth dim_head heads ff_mult ini = Inl AssertionError"
    for ini
    by (simp add: Transformer_init_def divisible_by_def odd_iff_mod_2_eq_one)
  have c: "even kernel_size \<Longrightarrow>
      ConvPositionEmbed_init dim' kernel_size groups w b = Inl AssertionError" for w b
    by (simp add: ConvPositionEmbed_init_def is_odd_def divisible_by_def)
  have s: "odd d \<Longrightarrow> LearnedSinusoidalPosEmb_init d sw = Inl AssertionError" for d sw
    by (simp add: LearnedSinusoidalPosEmb_init_def divisible_by_def odd_iff_mod_2_eq_one)
  have f: "last_dim cond \<noteq> last_dim x \<Longrightarrow>
      DurationPredictor_forward m x ids cond p target mask' us = Inl AssertionError
      \<and> VoiceBox_forward vm x ids cond ts p target mask' us = Inl AssertionError"
    by (simp add: DurationPredictor_forward_def VoiceBox_forward_def)
  have g: "has_shape3 x bx nx dx \<and> has_shape3 cond bc nc dc \<and> 0 < bx \<and> 0 < nx \<and> 0 < bc
        \<and> 0 < nc \<and> dc \<noteq> dx \<Longrightarrow>
      DurationPredictor_forward m x ids cond p target mask' us = Inl AssertionError
      \<and> VoiceBox_forward vm x ids cond ts p target mask' us = Inl AssertionError"
  proof -
    assume h: "has_shape3 x bx nx dx \<and> has_shape3 cond bc nc dc \<and> 0 < bx \<and> 0 < nx \<and> 0 < bc
        \<and> 0 < nc \<and> dc \<noteq> dx"
    then have "last_dim x = dx" "last_dim cond = dc" by (blast intro: last_dim_shape)+
    then have "last_dim cond \<noteq> last_dim x" using h by simp
    then show ?thesis by (rule f)
  qed
  have dp: "odd depth \<or> even kernel_size \<Longrightarrow>
      isl (DurationPredictor_init np pe dim' depth dim_head heads ff_mult kernel_size groups mi)"
    unfolding DurationPredictor_init_def using t c
    by (cases "ConvPositionEmbed_init dim' kernel_size groups (conv_w mi) (conv_b mi)") auto
  have vb: "odd depth \<or> even kernel_size \<or> odd dim' \<Longrightarrow>
      isl (VoiceBox_init np pe dim' depth dim_head heads ff_mult kernel_size groups mi)"
  proof (cases "odd dim'")
    case True
    then have "LearnedSinusoidalPosEmb_init (int dim') (sinu_w mi) = Inl AssertionError"
      by (intro s) simp
    then show ?thesis by (simp add: VoiceBox_init_def)
  next
    case False
    assume "odd depth \<or> even kernel_size \<or> odd dim'"
    with False have "odd depth \<or> even kernel_size" by simp
    from dp [OF this] show ?thesis
      unfolding VoiceBox_init_def
      by (cases "LearnedSinusoidalPosEmb_init (int dim') (sinu_w mi)";
          cases "DurationPredictor_init np pe dim' depth dim_head heads ff_mult kernel_size
                   groups mi") auto
  qed
  show ?thesis using t c s f g dp vb by blast
qed

theorem C7_fail_fast_witness:
  "odd (3 :: int) \<and> even (4 :: int) \<and> odd (5 :: int)
   \<and> last_dim [[[1 :: real]]] \<noteq> last_dim example_x
   \<and> has_shape3 example_x 1 3 2 \<and> has_shape3 [[[1 :: real]]] 1 1 1
   \<and> Transformer_init 2 3 2 1 1 (\<lambda>_. zero_layer_ini) = Inl AssertionError
   \<and> ConvPositionEmbed_init 2 4 None (\<lambda>_ _ _. 0) (\<lambda>_. 0) = Inl AssertionError
   \<and> LearnedSinusoidalPosEmb_init 5 (\<lambda>_. 0) = Inl AssertionError
   \<and> DurationPredictor_forward example_predictor example_x example_ids [[[1]]] 0
        (Some example_target) None (\<lambda>_. 0) = Inl AssertionError
   \<and> VoiceBox_forward example_voicebox example_x example_ids [[[1]]] [1] 0
        (Some example_target) None (\<lambda>_. 0) = Inl AssertionError
   \<and> isl (DurationPredictor_init 2 1 2 3 2 1 1 4 None zero_ini)
   \<and> isl (VoiceBox_init 2 1 2 3 2 1 1 4 None zero_ini)"
  using C7_fail_fast [where depth = 3 and kernel_size = 4 and d = 5 and cond = "[[[1]]]"
      and x = example_x and dim' = 2 and dim_head = 2 and heads = 1 and ff_mult = 1
      and ini = "\<lambda>_. zero_layer_ini" and groups = None and w = "\<lambda>_ _ _. 0" and b = "\<lambda>_. 0"
      and sw = "\<lambda>_. 0" and m = example_predictor and ids = example_ids and p = 0
      and target = "Some example_target" and mask' = None and us = "\<lambda>_. 0"
      and vm = example_voicebox and ts = "[1]" and np = 2 and pe = 1 and mi = zero_ini
      and bx = 1 and nx = 3 and dx = 2 and bc = 1 and nc = 1 and dc = 1]
  by (simp add: last_dim_def example_x_def has_shape3_def has_shape2_def)

section \<open>A transformer without layers\<close>

text \<open>
  C10: constructing a Transformer with \<open>depth = 0\<close> succeeds, 0 passing the even-depth
  assertion; the result has no layers and its \<open>forward\<close> returns every input tensor
  unchanged.
\<close>

theorem C10_depth_zero:
  "\<exists>t. Transformer_init dim' 0 dim_head heads ff_mult ini = Inr t
       \<and> layers t = [] \<and> (\<forall>x. Transformer_forward t x = Inr x)"
  by (simp add: Transformer_init_def divisible_by_def Transformer_forward_def)

section \<open>Guided inference\<close>

text \<open>
  C2: on both classes \<open>forward_with_cond_scale\<close> with \<open>cond_scale = 1\<close> is the forward pass
  with \<open>cond_drop_prob = 0\<close>, and with any other scale it combines that pass with the one
  with \<open>cond_drop_prob = 1\<close> as \<open>null_logits + (logits - null_logits) * cond_scale\<close>: on
  finite scalars and, elementwise, on two tensors of one shape. Neither pass draws a random
  sample, so the result does not depend on the generator.
\<close>

theorem C2_guidance:
  "DurationPredictor_forward_with_cond_scale m x ids cond 1 target mask' us
     = DurationPredictor_forward m x ids cond 0 target mask' us
   \<and> VoiceBox_forward_with_cond_scale vm x ids cond ts 1 target mask' us
     = VoiceBox_forward vm x ids cond ts 0 target mask' us
   \<and> (cond_scale \<noteq> 1 \<longrightarrow>
        DurationPredictor_forward_with_cond_scale m x ids cond cond_scale target mask' us
          = bindE (DurationPredictor_forward m x ids cond 0 target mask' us) (\<lambda>logits.
            bindE (DurationPredictor_forward m x ids cond 1 target mask' us) (\<lambda>null_logits.
            Inr (guide_scalar null_logits logits cond_scale)))
        \<and> VoiceBox_forward_with_cond_scale vm x ids cond ts cond_scale target mask' us
          = bindE (VoiceBox_forward vm x ids cond ts 0 target mask' us) (\<lambda>logits.
            bindE (VoiceBox_forward vm x ids cond ts 1 target mask' us) (\<lambda>null_logits.
            guide null_logits logits cond_scale)))
   \<and> guide_scalar (Some n) (Some l) cond_scale = Some (n + (l - n) * cond_scale)
   \<and> guide (Loss (Some n)) (Loss (Some l)) cond_scale
       = Inr (Loss (Some (n + (l - n) * cond_scale)))
   \<and> (has_shape3 nt b k d \<and> has_shape3 lt b k d \<longrightarrow>
        guide (Logits nt) (Logits lt) cond_scale
          = Inr (Logits (map2 (map2 (map2 (\<lambda>n l. n + (l - n) * cond_scale))) nt lt)))
   \<and> DurationPredictor_forward_with_cond_scale m x ids cond cond_scale target mask' us
       = DurationPredictor_forward_with_cond_scale m x ids cond cond_scale target mask' us'
   \<and> VoiceBox_forward_with_cond_scale vm x ids cond ts cond_scale target mask' us
       = VoiceBox_forward_with_cond_scale vm x ids cond ts cond_scale target mask' us'"
proof (intro conjI impI)
  assume "has_shape3 nt b k d \<and> has_shape3 lt b k d"
  then show "guide (Logits nt) (Logits lt) cond_scale
          = Inr (Logits (map2 (map2 (map2 (\<lambda>n l. n + (l - n) * cond_scale))) nt lt))"
    by (blast intro: guide_Logits)
next
  show "DurationPredictor_forward_with_cond_scale m x ids cond cond_scale target mask' us
       = DurationPredictor_forward_with_cond_scale m x ids cond cond_scale target mask' us'"
    unfolding DurationPredictor_forward_with_cond_scale_def
      DP_forward_rng [of 0 m x ids cond target mask' us us', simplified]
      DP_forward_rng [of 1 m x ids cond target mask' us us', simplified]
    by (rule refl)
next
  show "VoiceBox_forward_with_cond_scale vm x ids cond ts cond_scale target mask' us
       = VoiceBox_forward_with_cond_scale vm x ids cond ts cond_scale target mask' us'"
    unfolding VoiceBox_forward_with_cond_scale_def
      VB_forward_rng [of 0 vm x ids cond ts target mask' us us', simplified]
      VB_forward_rng [of 1 vm x ids cond ts target mask' us us', simplified]
    by (rule refl)
qed (simp_all add: DurationPredictor_forward_with_cond_scale_def
      VoiceBox_forward_with_cond_scale_def guide_scalar_def guide_def)

theorem C2_guidance_witness:
  "(3 :: real) \<noteq> 1 \<and> has_shape3 [[[1 :: real]]] 1 1 1 \<and> has_shape3 [[[2 :: real]]] 1 1 1
   \<and> guide (Logits [[[1]]]) (Logits [[[2]]]) 3 = Inr (Logits [[[4]]])
   \<and> guide_scalar (Some 1) (Some 2) 3 = Some 4
   \<and> VoiceBox_forward_with_cond_scale example_voicebox example_x example_ids example_cond
        [1 / 2] 3 None None (\<lambda>_. 0)
      = bindE (VoiceBox_forward example_voicebox example_x example_ids example_cond
                 [1 / 2] 0 None None (\<lambda>_. 0)) (\<lambda>logits.
        bindE (VoiceBox_forward example_voicebox example_x example_ids example_cond
                 [1 / 2] 1 None None (\<lambda>_. 0)) (\<lambda>null_logits.
        guide null_logits logits 3))"
  using C2_guidance [where cond_scale = 3 and nt = "[[[1]]]" and lt = "[[[2]]]" and b = 1
      and k = 1 and d = 1 and n = 1 and l = 2 and vm = example_voicebox and x = example_x
      and ids = example_ids and cond = example_cond and ts = "[1 / 2]" and target = None
      and mask' = None and us = "\<lambda>_. 0" and us' = "\<lambda>_. 0" and m = example_predictor]
  by (simp add: has_shape3_def has_shape2_def)

section \<open>The shape of the prediction\<close>

text \<open>
  C3: for a well-formed VoiceBox of dimension \<open>d\<close>, every batch size \<open>b > 0\<close>, every
  sequence length \<open>n > 0\<close> and matching inputs (\<open>x\<close> and \<open>cond\<close> of shape \<open>[b, n, d]\<close>,
  ids of shape \<open>[b, n]\<close> within the vocabulary, \<open>times\<close> of shape \<open>[b]\<close>), \<open>forward\<close>
  without a target does not fail and returns a tensor of shape \<open>[b, n, d]\<close>: the
  Transformer runs on \<open>n + 1\<close> positions, the time embedding in front, and the result is
  its output without the first position. An empty batch is left out, on which \<open>pack\<close>
  raises RuntimeError, and an empty sequence, which the convolution rejects.
\<close>

theorem C3_prediction_shape:
  assumes "wf_voicebox m d" "matching_inputs m b n d x ids cond" "length ts = b" "0 < n"
    "0 < b"
  shows "\<exists>e z y. has_shape3 e b n d
           \<and> Transformer_forward (transformer m)
                 (map2 (#) (LearnedSinusoidalPosEmb_forward (sinu_pos_emb m) ts) e) = Inr z
           \<and> has_shape3 z b (Suc n) d \<and> y = map tl z
           \<and> VoiceBox_forward m x ids cond ts p None mask' us = Inr (Logits y)
           \<and> has_shape3 y b n d"
proof -
  obtain e z where ez: "has_shape3 e b n d"
    "Transformer_forward (transformer m)
       (map2 (#) (LearnedSinusoidalPosEmb_forward (sinu_pos_emb m) ts) e) = Inr z"
    "has_shape3 z b (Suc n) d" "VoiceBox_predict m x ids cond ts p us = Inr (map tl z)"
    "has_shape3 (map tl z) b n d"
    using VoiceBox_predict_steps [OF assms] by blast
  have ld: "last_dim cond = last_dim x"
    using assms(2,4) by (auto simp: matching_inputs_def intro: last_dim_match)
  have "VoiceBox_forward m x ids cond ts p None mask' us = Inr (Logits (map tl z))"
    by (simp add: VoiceBox_forward_def ld ez(4) exists_def)
  then show ?thesis using ez by blast
qed

theorem C3_prediction_shape_witness:
  "wf_voicebox example_voicebox 2
   \<and> matching_inputs example_voicebox 1 3 2 example_x example_ids example_cond
   \<and> length [1 / 2 :: real] = 1
   \<and> (\<exists>y. VoiceBox_forward example_voicebox example_x example_ids example_cond [1 / 2] (1 / 10)
              None None (\<lambda>_. 1 / 2) = Inr (Logits y) \<and> has_shape3 y 1 3 2)"
  using C3_prediction_shape [OF example_voicebox_wf example_voicebox_matching, of "[1 / 2]"
      "1 / 10" None "\<lambda>_. 1 / 2"] example_voicebox_wf example_voicebox_matching
  by auto

section \<open>A mask that excludes every position\<close>

text \<open>
  C8: for a well-formed predictor, a non-empty batch of matching inputs and a mask that is
  True at every position, \<open>forward\<close> with a target returns the finite loss 0: every
  per-position loss is replaced by 0 and no denominator is 0, each being at least
  \<open>1e-5\<close> (\<open>fdiv\<close> gives the non-finite value \<open>None\<close> on a zero denominator). The
  loss is finite for every other mask of that shape as well.
\<close>

theorem C8_all_masked_finite:
  assumes "wf_predictor m d" "matching_inputs m b n d x ids cond" "0 < n" "0 < b"
    "has_shape3 tg b n d" "has_shape2 mk b n" "\<forall>r \<in> set mk. \<forall>c \<in> set r. c"
  shows "DurationPredictor_forward m x ids cond p (Some tg) (Some mk) us = Inr (Some 0)
     \<and> (\<forall>r \<in> set mk. 1 / 10 ^ 5 \<le> max (real (length (filter id r))) (1 / 10 ^ 5))
     \<and> (\<forall>mk'. has_shape2 mk' b n \<longrightarrow>
           (\<exists>v. DurationPredictor_forward m x ids cond p (Some tg) (Some mk') us
                  = Inr (Some v)))"
proof -
  from assms(1) have d: "0 < d" by (simp add: wf_predictor_def)
  obtain y where y: "has_shape3 y b n d"
    "DurationPredictor_forward m x ids cond p (Some tg) (Some mk) us
       = Inr (code_masked (map2 (map2 (map2 l1)) y tg) mk)"
    using DurationPredictor_forward_masked [OF assms(1,2,3,5,6)] by blast
  have "code_masked (map2 (map2 (map2 l1)) y tg) mk = Some 0"
    using has_shape3_map2 [OF y(1) assms(5)] assms(6,7,4) by (rule code_masked_all_True)
  then have zero: "DurationPredictor_forward m x ids cond p (Some tg) (Some mk) us = Inr (Some 0)"
    by (simp add: y(2))
  have fin: "\<exists>v. DurationPredictor_forward m x ids cond p (Some tg) (Some mk') us = Inr (Some v)"
    if mk': "has_shape2 mk' b n" for mk'
  proof -
    obtain y' where y': "has_shape3 y' b n d"
      "DurationPredictor_forward m x ids cond p (Some tg) (Some mk') us
         = Inr (code_masked (map2 (map2 (map2 l1)) y' tg) mk')"
      using DurationPredictor_forward_masked [OF assms(1,2,3,5) mk'] by blast
    obtain v where "code_masked (map2 (map2 (map2 l1)) y' tg) mk' = Some v"
      using code_masked_finite [OF has_shape3_map2 [OF y'(1) assms(5)] mk' assms(4) d] by blast
    then show ?thesis by (simp add: y'(2))
  qed
  show ?thesis using zero fin by simp
qed

theorem C8_all_masked_finite_witness:
  "wf_predictor example_predictor 2
   \<and> matching_inputs example_predictor 1 3 2 example_x example_ids example_cond
   \<and> has_shape3 example_target 1 3 2 \<and> has_shape2 [[True, True, True]] 1 3
   \<and> DurationPredictor_forward example_predictor example_x example_ids example_cond (1 / 10)
        (Some example_target) (Some [[True, True, True]]) (\<lambda>_. 1 / 2) = Inr (Some 0)"
  using C8_all_masked_finite [OF example_predictor_wf example_predictor_matching _ _
      example_shapes(4), of "[[True, True, True]]" "1 / 10" "\<lambda>_. 1 / 2"]
    example_predictor_wf example_predictor_matching example_shapes(4)
  by (simp add: has_shape2_def)

section \<open>A mask that excludes no position\<close>

text \<open>
  C9: for a well-formed predictor, a non-empty batch of matching inputs and a mask that is
  False at every position, \<open>forward\<close> with a target returns the sums over the positions
  of the per-position mean absolute errors, each divided by \<open>1e-5\<close> (the clamped count of
  True entries, which is 0), averaged over the batch. That is \<open>n * 1e5\<close> times the mean
  loss \<open>u\<close> which the path without a mask returns.
\<close>

theorem C9_none_masked:
  assumes "wf_predictor m d" "matching_inputs m b n d x ids cond" "0 < n" "0 < b"
    "has_shape3 tg b n d" "has_shape2 mk b n" "\<forall>r \<in> set mk. \<forall>c \<in> set r. \<not> c"
  shows "\<exists>y u. DurationPredictor_predict m x ids cond p us = Inr y \<and> has_shape3 y b n d
     \<and> DurationPredictor_forward m x ids cond p (Some tg) (Some mk) us
         = Inr (Some (sum_list (map (\<lambda>row. sum_list (map (\<lambda>v. sum_list v / real d) row)
                                        / (1 / 10 ^ 5))
                                 (map2 (map2 (map2 l1)) y tg)) / real b))
     \<and> DurationPredictor_forward m x ids cond p (Some tg) None us = Inr (Some u)
     \<and> u = sum_list (concat (concat (map2 (map2 (map2 l1)) y tg))) / real (d * n * b)
     \<and> DurationPredictor_forward m x ids cond p (Some tg) (Some mk) us
         = Inr (Some (real n * 10 ^ 5 * u))"
proof -
  from assms(1) have d: "0 < d" by (simp add: wf_predictor_def)
  obtain y where y: "DurationPredictor_predict m x ids cond p us = Inr y" "has_shape3 y b n d"
    "DurationPredictor_forward m x ids cond p (Some tg) (Some mk) us
       = Inr (code_masked (map2 (map2 (map2 l1)) y tg) mk)"
    using DurationPredictor_forward_masked [OF assms(1,2,3,5,6)] by blast
  let ?l = "map2 (map2 (map2 l1)) y tg"
  have l: "has_shape3 ?l b n d" using y(2) assms(5) by (rule has_shape3_map2)
  have ld: "last_dim cond = last_dim x"
    using assms(2,3) by (auto simp: matching_inputs_def intro: last_dim_match)
  have "0 < length (concat (concat ?l))"
    unfolding length_concat_shape3 [OF l] using assms(3,4) d by simp
  then have ne: "concat (concat ?l) \<noteq> []"
    unfolding length_greater_0_conv .
  have lm: "loss_mean l1 y (Some tg) = Inr (mean_opt (concat (concat ?l)))"
    unfolding loss_mean_def loss_none_shape [OF y(2) assms(5)] by (simp only: bindE_Inr)
  have mo: "mean_opt (concat (concat ?l))
      = Some (sum_list (concat (concat ?l)) / real (d * n * b))"
    unfolding mean_opt_def length_concat_shape3 [OF l] using ne by (simp only: if_False)
  have um: "DurationPredictor_forward m x ids cond p (Some tg) None us
      = Inr (Some (sum_list (concat (concat ?l)) / real (d * n * b)))"
    unfolding DurationPredictor_forward_def
    by (simp only: ld y(1) bindE_Inr option.case lm mo not_False_eq_True if_False simp_thms)
  have mk: "code_masked ?l mk
      = Some (sum_list (map (\<lambda>row. sum_list (map (\<lambda>v. sum_list v / real d) row) / (1 / 10 ^ 5)) ?l)
              / real b)"
    using l assms(6,7,4) d by (rule code_masked_all_False)
  have mv: "DurationPredictor_forward m x ids cond p (Some tg) (Some mk) us
      = Inr (Some (real n * 10 ^ 5 * (sum_list (concat (concat ?l)) / real (d * n * b))))"
    unfolding y(3) mk masked_vs_mean [OF assms(4,3) d] by (rule refl)
  have mf: "DurationPredictor_forward m x ids cond p (Some tg) (Some mk) us
      = Inr (Some (sum_list (map (\<lambda>row. sum_list (map (\<lambda>v. sum_list v / real d) row)
                                        / (1 / 10 ^ 5)) ?l) / real b))"
    unfolding y(3) mk by (rule refl)
  show ?thesis
    using y(1,2) mf um mv by blast
qed

theorem C9_none_masked_witness:
  "wf_predictor example_predictor 2
   \<and> matching_inputs example_predictor 1 3 2 example_x example_ids example_cond
   \<and> has_shape3 example_target 1 3 2 \<and> has_shape2 [[False, False, False]] 1 3
   \<and> DurationPredictor_forward example_predictor example_x example_ids example_cond 0
        (Some example_target) None (\<lambda>_. 0) = Inr (Some 1)
   \<and> DurationPredictor_forward example_predictor example_x example_ids example_cond 0
        (Some example_target) (Some [[False, False, False]]) (\<lambda>_. 0) = Inr (Some 300000)"
proof -
  have mk: "has_shape2 [[False, False, False]] 1 3" by (simp add: has_shape2_def)
  obtain y u where
    y: "DurationPredictor_predict example_predictor example_x example_ids example_cond 0 (\<lambda>_. 0)
          = Inr y"
    and n: "DurationPredictor_forward example_predictor example_x example_ids example_cond 0
          (Some example_target) None (\<lambda>_. 0) = Inr (Some u)"
    and u: "u = sum_list (concat (concat (map2 (map2 (map2 l1)) y example_target)))
          / real (2 * 3 * 1)"
    and f: "DurationPredictor_forward example_predictor example_x example_ids example_cond 0
          (Some example_target) (Some [[False, False, False]]) (\<lambda>_. 0)
          = Inr (Some (real 3 * 10 ^ 5 * u))"
    using C9_none_masked [OF example_predictor_wf example_predictor_matching _ _
        example_shapes(4) mk, of 0 "\<lambda>_. 0"]
    by auto
  have "y = [[[0, 0], [0, 0], [0, 0]]]" using y by (simp add: example_predict)
  then have "u = 1" using u by (simp add: example_target_def l1_def)
  then show ?thesis
    using n f mk example_predictor_wf example_predictor_matching example_shapes(4) by simp
qed

section \<open>The denominator of the masked mean\<close>

text \<open>
  C1: the masked loss zeroes the positions where the mask is True and then divides each
  row's sum by \<open>mask.sum(dim = -1)\<close>, the number of True entries, that is of the positions
  it has just excluded, not by the number of positions that remain. On the example, with
  the first of three positions excluded and a loss of 1 at every position, both classes
  return \<open>(0 + 1 + 1) / 1 = 2\<close>, where the masked mean over the two remaining positions
  is 1.
\<close>

theorem C1_masked_denominator:
  "DurationPredictor_predict example_predictor example_x example_ids example_cond 0 (\<lambda>_. 0)
     = Inr [[[0, 0], [0, 0], [0, 0]]]
   \<and> DurationPredictor_forward example_predictor example_x example_ids example_cond 0
        (Some example_target) (Some [[True, False, False]]) (\<lambda>_. 0) = Inr (Some 2)
   \<and> spec_masked_loss (map2 (map2 (map2 l1)) [[[0, 0], [0, 0], [0, 0]]] example_target)
        [[True, False, False]] = Some 1
   \<and> VoiceBox_predict example_voicebox example_x example_ids example_cond [1 / 2] 0 (\<lambda>_. 0)
     = Inr [[[0, 0], [0, 0], [0, 0]]]
   \<and> VoiceBox_forward example_voicebox example_x example_ids example_cond [1 / 2] 0
        (Some example_target) (Some [[True, False, False]]) (\<lambda>_. 0) = Inr (Loss (Some 2))
   \<and> spec_masked_loss (map2 (map2 (map2 mse)) [[[0, 0], [0, 0], [0, 0]]] example_target)
        [[True, False, False]] = Some 1"
proof -
  have ld: "last_dim example_cond = last_dim example_x"
    by (simp add: last_dim_def example_cond_def example_x_def)
  have l: "loss_none f [[[0, 0], [0, 0], [0, 0]]] (Some example_target)
      = Inr [[[f 0 1, f 0 1], [f 0 1, f 0 1], [f 0 1, f 0 1]]]" for f
    by (simp add: loss_none_def example_target_def zipE_def broadcast2_def)
  have ml: "masked_loss [[[1, 1], [1, 1], [1, 1]]] [[True, False, False]] = Inr (Some 2)"
    by (simp add: masked_loss_def zipE_def mean_opt_def sum_opt_def fdiv_def mean_opts_def)
  have sp: "spec_masked_loss [[[1, 1], [1, 1], [1, 1]]] [[True, False, False]] = Some 1"
    by (simp add: spec_masked_loss_def mean_opt_def sum_opt_def fdiv_def mean_opts_def)
  have m2: "map2 (map2 (map2 f)) [[[0, 0], [0, 0], [0, 0]]] example_target
      = [[[f 0 1, f 0 1], [f 0 1, f 0 1], [f 0 1, f 0 1]]]" for f :: "real \<Rightarrow> real \<Rightarrow> real"
    by (simp add: example_target_def)
  show ?thesis
    by (simp add: example_predict example_voicebox_predict DurationPredictor_forward_def
        VoiceBox_forward_def ld l ml sp m2 l1_def mse_def exists_def)
qed

section \<open>Rotary embedding preserves norms and is inverted by negated angles\<close>

text \<open>
  C4: let \<open>pos\<close> be a row of the angle table \<open>RotaryEmbedding.forward\<close> produces for an even
  head dimension \<open>dh\<close>, and \<open>t\<close> any vector of that length. Then
  \<open>apply_rotary_pos_emb(pos, t)\<close> is \<open>t * cos(pos) + rotate_half(t) * sin(pos)\<close>, it rotates
  each pair \<open>(t\<^sub>j, t\<^sub>j\<^sub>+\<^sub>d\<^sub>h\<^sub>/\<^sub>2)\<close> by the angle \<open>pos\<^sub>j\<close>, the two halves of \<open>pos\<close> being equal, it
  preserves the L2 norm, and applying it again with the negated angles returns \<open>t\<close>. A
  tensor is rotated vector by vector, row \<open>i\<close> of the table against position \<open>i\<close>.
  Arithmetic is exact real arithmetic.
\<close>

theorem C4_rotary:
  assumes "even dh" "0 < dh" "length t = dh" "i < n"
    and "pos = RotaryEmbedding_forward (RotaryEmbedding_init dh theta) n ! i"
  shows "\<exists>r h. rotate_half t = Inr h
           \<and> r = map2 (+) (map2 (*) t (map cos pos)) (map2 (*) h (map sin pos))
           \<and> apply_rotary_pos_emb pos t = Inr r \<and> length r = dh
           \<and> l2norm r = l2norm t
           \<and> (\<forall>j < dh div 2.
                 pos ! (j + dh div 2) = pos ! j
                 \<and> r ! j = t ! j * cos (pos ! j) - t ! (j + dh div 2) * sin (pos ! j)
                 \<and> r ! (j + dh div 2)
                     = t ! (j + dh div 2) * cos (pos ! j) + t ! j * sin (pos ! j))
           \<and> apply_rotary_pos_emb (map uminus pos) r = Inr t"
proof -
  define k where "k = dh div 2"
  define th where "th = map (\<lambda>f. real i * f) (RotaryEmbedding_init dh theta)"
  define a where "a = take k t"
  define b where "b = drop k t"
  have dh: "dh = 2 * k" and k: "0 < k" using assms(1,2) by (auto simp: k_def elim!: evenE)
  have lth: "length th = k"
    using assms(1) by (auto simp: th_def RotaryEmbedding_init_length k_def elim!: evenE)
  have la: "length a = k" and lb: "length b = k" and t: "t = a @ b"
    using assms(3) dh by (simp_all add: a_def b_def)
  have pos: "pos = th @ th" unfolding assms(5) th_def using assms(4) by (rule rotary_row)
  let ?p = "map (\<lambda>(x, y, t). x * cos t - y * sin t) (zip a (zip b th))"
  let ?q = "map (\<lambda>(x, y, t). y * cos t + x * sin t) (zip a (zip b th))"
  let ?r = "rotate_pairs th a b"
  have r: "apply_rotary_pos_emb pos t = Inr ?r"
    unfolding pos t by (rule rotary_halves) (use la lb lth k in simp_all)
  have h: "rotate_half t = Inr (map uminus b @ a)"
    using rotate_half_even [of t k] assms(3) dh k by (simp add: a_def b_def)
  have f: "?r = map2 (+) (map2 (*) t (map cos pos)) (map2 (*) (map uminus b @ a) (map sin pos))"
    using apply_rotary_pos_emb_even [of t k pos] r assms(3) dh k pos lth
    by (simp add: a_def b_def)
  have lr: "length ?r = dh" using la lb lth dh by (simp add: rotate_pairs_length)
  have "sum_list (map (\<lambda>c. c * c) ?r)
      = sum_list (map (\<lambda>c. c * c) a) + sum_list (map (\<lambda>c. c * c) b)"
    by (rule sumsq_rotate) (use la lb lth in simp_all)
  then have nr: "l2norm ?r = l2norm t" by (simp add: l2norm_def t)
  have pairs: "pos ! (j + k) = pos ! j
      \<and> ?r ! j = t ! j * cos (pos ! j) - t ! (j + k) * sin (pos ! j)
      \<and> ?r ! (j + k) = t ! (j + k) * cos (pos ! j) + t ! j * sin (pos ! j)" if "j < k" for j
  proof -
    have 1: "pos ! j = th ! j" "pos ! (j + k) = th ! j"
      using that lth by (simp_all add: pos nth_append)
    have 2: "t ! j = a ! j" "t ! (j + k) = b ! j"
      using that la by (simp_all add: t nth_append)
    have 3: "?r ! j = a ! j * cos (th ! j) - b ! j * sin (th ! j)"
      using that la lb lth by (simp add: rotate_pairs_def nth_append)
    have 4: "?r ! (j + k) = b ! j * cos (th ! j) + a ! j * sin (th ! j)"
      using that la lb lth by (simp add: rotate_pairs_def nth_append)
    show ?thesis by (simp add: 1 2 3 4)
  qed
  have inv: "apply_rotary_pos_emb (map uminus pos) ?r = Inr t"
  proof -
    have "apply_rotary_pos_emb (map uminus th @ map uminus th) (?p @ ?q)
        = Inr (rotate_pairs (map uminus th) ?p ?q)"
      by (rule rotary_halves) (use la lb lth k in simp_all)
    also have "rotate_pairs (map uminus th) ?p ?q = a @ b"
      by (rule rotate_back) (use la lb lth in simp_all)
    finally show ?thesis by (simp add: pos t rotate_pairs_def)
  qed
  show ?thesis
    using h f r lr nr pairs inv unfolding k_def [symmetric] by blast
qed

theorem C4_rotary_witness:
  "even (2 :: nat) \<and> (0 :: nat) < 2 \<and> length [3, 4 :: real] = 2 \<and> (1 :: nat) < 2
   \<and> (\<exists>r. apply_rotary_pos_emb (RotaryEmbedding_forward (RotaryEmbedding_init 2 10000) 2 ! 1)
             [3, 4] = Inr r
          \<and> l2norm r = l2norm [3, 4]
          \<and> apply_rotary_pos_emb
               (map uminus (RotaryEmbedding_forward (RotaryEmbedding_init 2 10000) 2 ! 1)) r
             = Inr [3, 4])"
  using C4_rotary [of 2 "[3, 4]" 1 2
      "RotaryEmbedding_forward (RotaryEmbedding_init 2 10000) 2 ! 1" 10000]
  by auto

section \<open>The skip connections pair layer k with layer depth + 1 - k\<close>

text \<open>
  C5: a Transformer as its constructor builds it has an even number \<open>depth\<close> of layers,
  exactly those of the second half (\<open>k > depth / 2\<close>, counting from 1) have a skip
  combiner, every layer does residual attention and then residual feedforward, and the
  loop with its stack of skip connections computes what the specification's wording
  computes: each layer of the first half keeps its pre-attention input, each layer \<open>k\<close>
  of the second half concatenates the input kept by layer \<open>depth + 1 - k\<close> with \<open>x\<close> along
  the feature axis and maps it back through its combiner before attention.
\<close>

theorem C5_skip_connections:
  assumes "Transformer_init dim' depth dim_head heads ff_mult ini = Inr t"
  shows "even depth \<and> length (layers t) = nat depth
     \<and> (\<forall>k. 1 \<le> k \<and> k \<le> length (layers t) \<longrightarrow>
            (skip_combiner (layers t ! (k - 1)) \<noteq> None \<longleftrightarrow> length (layers t) div 2 < k))
     \<and> (\<forall>rotary l y. residual_steps rotary l y
            = bindE (Attention_forward (attn l) y rotary) (\<lambda>a.
              bindE (add3 a y) (\<lambda>y.
              bindE (FeedForward_forward (ff l) y) (\<lambda>f. add3 f y))))
     \<and> Transformer_forward t x = spec_forward t x"
proof -
  note i = Transformer_init_layers [OF assms]
  define m where "m = length (layers t) div 2"
  have ev: "even (length (layers t))"
    using i(1,2) by (cases "0 \<le> depth") (simp_all add: even_nat_iff)
  then have len: "length (layers t) = 2 * m" by (auto simp: m_def elim!: evenE)
  have sk: "\<forall>k. 1 \<le> k \<and> k \<le> length (layers t) \<longrightarrow>
      (skip_combiner (layers t ! (k - 1)) \<noteq> None \<longleftrightarrow> length (layers t) div 2 < k)"
  proof (intro allI impI)
    fix k assume k: "1 \<le> k \<and> k \<le> length (layers t)"
    then have "k - 1 < length (layers t)" by arith
    then have "skip_combiner (layers t ! (k - 1)) \<noteq> None \<longleftrightarrow> length (layers t) div 2 \<le> k - 1"
      using i(3) by blast
    then show "skip_combiner (layers t ! (k - 1)) \<noteq> None \<longleftrightarrow> length (layers t) div 2 < k"
      using k by arith
  qed
  have "Transformer_loop rotary (layers t) x [] = spec_layers (2 * m) rotary (layers t) 1 (\<lambda>_. []) x"
    for rotary
  proof (rule loop_refines)
    show "\<forall>j < length (layers t). (skip_combiner (layers t ! j) \<noteq> None) = (m < 1 + j)"
      using i(3) by (auto simp: m_def)
    show "1 + length (layers t) = 2 * m + 1" using len by simp
    show "[] = map (\<lambda>_. []) [1 ..< Suc (min (1 - 1) (2 * m + 1 - 1))]" by simp
  qed simp
  then have "Transformer_forward t x = spec_forward t x"
    by (simp add: Transformer_forward_def spec_forward_def len)
  then show ?thesis using i(1,2) sk by (simp add: residual_steps_def)
qed

theorem C5_skip_connections_witness:
  "Transformer_init 2 2 2 1 1 (\<lambda>_. zero_layer_ini) = Inr (transformer example_predictor)
   \<and> length (layers (transformer example_predictor)) = 2
   \<and> skip_combiner (layers (transformer example_predictor) ! 0) = None
   \<and> skip_combiner (layers (transformer example_predictor) ! 1) \<noteq> None
   \<and> Transformer_forward (transformer example_predictor) example_x
       = spec_forward (transformer example_predictor) example_x"
proof -
  note c = C5_skip_connections [OF example_transformer_init, of example_x]
  from c have len: "length (layers (transformer example_predictor)) = 2" by simp
  from c have sk: "1 \<le> k \<and> k \<le> 2 \<longrightarrow>
      (skip_combiner (layers (transformer example_predictor) ! (k - 1)) \<noteq> None \<longleftrightarrow> 1 < k)" for k
    unfolding len by simp
  have "skip_combiner (layers (transformer example_predictor) ! 0) = None"
    using sk [of 1] by simp
  moreover have "skip_combiner (layers (transformer example_predictor) ! 1) \<noteq> None"
    using sk [of 2] by simp
  ultimately show ?thesis using c len example_transformer_init by simp
qed

section \<open>Dropping the conditioning with probability one\<close>

text \<open>
  C6: with \<open>cond_drop_prob = 1\<close>, for \<open>cond\<close> of shape \<open>[b, n, d]\<close>, ids of shape \<open>[b, n]\<close> and
  a null conditioning vector of length \<open>d\<close>, the tensors after the substitution are the
  null conditioning vector at every position of every batch element and the null id at
  every position, whatever the random samples are; \<open>forward\<close> of either class is then
  \<open>forward\<close> without dropout on these tensors.
\<close>

theorem C6_full_dropout:
  assumes "has_shape3 cond b n d" "has_shape2 ids b n"
    "length (null_cond dm) = d" "length (null_cond vm) = d"
  shows "cond_drop dm 1 us cond ids
       = Inr (replicate b (replicate n (null_cond dm)),
              replicate b (replicate n (null_phoneme_id dm)))
     \<and> cond_drop vm 1 us cond ids
       = Inr (replicate b (replicate n (null_cond vm)),
              replicate b (replicate n (null_phoneme_id vm)))
     \<and> DurationPredictor_forward dm x ids cond 1 target mask' us
       = DurationPredictor_forward dm x (replicate b (replicate n (null_phoneme_id dm)))
           (replicate b (replicate n (null_cond dm))) 0 target mask' us'
     \<and> VoiceBox_forward vm x ids cond ts 1 target mask' us
       = VoiceBox_forward vm x (replicate b (replicate n (null_phoneme_id vm)))
           (replicate b (replicate n (null_cond vm))) ts 0 target mask' us'"
proof -
  note d = cond_drop_one [OF assms(3) assms(1,2), of us]
  note v = cond_drop_one [OF assms(4) assms(1,2), of us]
  have z: "cond_drop m 0 us' c i = Inr (c, i)" for m :: "'a duration_predictor_scheme" and c i
    by (simp add: cond_drop_def)
  have pd: "DurationPredictor_predict dm x ids cond 1 us
      = DurationPredictor_predict dm x (replicate b (replicate n (null_phoneme_id dm)))
           (replicate b (replicate n (null_cond dm))) 0 us'"
    by (simp add: DurationPredictor_predict_def d z)
  have pv: "VoiceBox_predict vm x ids cond ts 1 us
      = VoiceBox_predict vm x (replicate b (replicate n (null_phoneme_id vm)))
           (replicate b (replicate n (null_cond vm))) ts 0 us'"
    by (simp add: VoiceBox_predict_def v z)
  note ld = last_dim_replicate [OF assms(1,3)] last_dim_replicate [OF assms(1,4)]
  show ?thesis
    unfolding DurationPredictor_forward_def VoiceBox_forward_def pd pv ld
    using d v by simp
qed

theorem C6_full_dropout_witness:
  "has_shape3 example_cond 1 3 2 \<and> has_shape2 example_ids 1 3
   \<and> length (null_cond example_predictor) = 2 \<and> length (null_cond example_voicebox) = 2
   \<and> cond_drop example_voicebox 1 (\<lambda>_. 1 / 2) example_cond example_ids
       = Inr ([[[0, 0], [0, 0], [0, 0]]], [[2, 2, 2]])"
proof -
  have n: "length (null_cond example_predictor) = 2" "length (null_cond example_voicebox) = 2"
    using example_predictor_wf example_voicebox_wf
    by (simp_all add: wf_voicebox_def wf_predictor_def)
  have v: "null_cond example_voicebox = [0, 0]" "null_phoneme_id example_voicebox = 2"
    by (simp_all add: example_voicebox_def init_defs numeral_2_eq_2)
  show ?thesis
    using C6_full_dropout [OF example_shapes(2,3) n, of "\<lambda>_. 1 / 2"] example_shapes(2,3) n
    by (simp add: v numeral_3_eq_3 numeral_2_eq_2)
qed

end
